theory Spec2Isabelle
  imports Main "HOL-Library.AList"
begin

section \<open>Data model\<close>

text \<open>
  Exceptions are values. Every exception the model raises derives from Python's
  \<open>Exception\<close>; \<open>str_exn\<close> is \<open>str(e)\<close>.
\<close>

datatype exn =
    DoesNotExist string
  | PersistenceError string
  | DriverError string

fun str_exn :: "exn \<Rightarrow> string" where
  "str_exn (DoesNotExist m) = m"
| "str_exn (PersistenceError m) = m"
| "str_exn (DriverError m) = m"

text \<open>
  The decoded status of one group, as \<open>get_group_selection\<close> returns it: a dict with one
  boolean per coffee type.
\<close>

record status_dict =
  single_short :: bool
  single_medium :: bool
  single_long :: bool
  double_short :: bool
  double_medium :: bool
  double_long :: bool
  purge :: bool

text \<open>
  A row of \<open>CoffeeDelivery\<close> and a row of \<open>MaintenanceLog\<close>, with the fields the code
  reads and writes. A field that a \<open>create\<close> call does not pass is \<open>None\<close>: the value
  is then the default of the model class.
\<close>

record coffee_delivery =
  d_id :: nat
  d_coffee_type :: string
  d_group_number :: int
  d_status :: string
  d_trigger_type :: "string option"
  d_started_at :: "nat option"
  d_completed_at :: "nat option"
  d_error_message :: "string option"

record maintenance_log =
  log_type :: string
  log_group_number :: "int option"
  log_message :: string
  log_resolved :: "bool option"

text \<open>The repository: the two tables, and the next primary key of the delivery table.\<close>

record db =
  deliveries :: "nat \<rightharpoonup> coffee_delivery"
  logs :: "maintenance_log list"
  next_id :: nat

text \<open>
  The entries of the \<open>activities\<close> list of a cycle: dicts tagged by their \<open>'type'\<close>
  key. The arguments are \<open>group\<close>, \<open>coffee_type\<close>, \<open>delivery_id\<close>, and \<open>group\<close>,
  \<open>message\<close> for an error.
\<close>

datatype activity =
    Delivery_started int string nat
  | Delivery_completed int string nat
  | Error_activity int string

fun activity_type :: "activity \<Rightarrow> string" where
  "activity_type (Delivery_started g c i) = ''delivery_started''"
| "activity_type (Delivery_completed g c i) = ''delivery_completed''"
| "activity_type (Error_activity g m) = ''error''"

fun activity_group :: "activity \<Rightarrow> int" where
  "activity_group (Delivery_started g c i) = g"
| "activity_group (Delivery_completed g c i) = g"
| "activity_group (Error_activity g m) = g"

text \<open>The dict a cycle returns; the keys a \<open>disconnected\<close> result lacks are \<open>None\<close>.\<close>

record cycle_result =
  r_status :: string
  r_timestamp :: "nat option"
  r_activities :: "activity list"
  r_active_deliveries :: "nat option"

text \<open>The dict \<open>deliver_coffee\<close> of the driver returns.\<close>

record deliver_result =
  success :: bool
  message :: string

text \<open>
  The collaborators during one invocation: what each driver call returns or raises, the
  clock, and which repository writes fail. The clock is read as one value during an
  invocation. A write fault is a function of the row being written; reading a delivery
  by its id fails exactly when no row has that id.
\<close>

record env =
  ensure_connection :: "exn + bool"
  get_number_of_groups :: "exn + int option"
  get_group_selection :: "int \<Rightarrow> exn + status_dict option"
  deliver_coffee :: "int \<Rightarrow> string \<Rightarrow> exn + deliver_result"
  wait_until_group_is_free :: "int \<Rightarrow> nat \<Rightarrow> exn + bool"
  now :: nat
  delivery_write_fault :: "coffee_delivery \<Rightarrow> exn option"
  log_write_fault :: "maintenance_log \<Rightarrow> exn option"

text \<open>
  The two dicts of a \<open>ButtonPressMonitor\<close>. Their keys \<open>f"group_{group_num}"\<close> are in
  bijection with the group numbers, which are the keys here. \<open>active_deliveries\<close> is
  an association list, since the cycle reports its length.
\<close>

record monitor =
  previous_states :: "int \<rightharpoonup> status_dict"
  active_deliveries :: "(int \<times> coffee_delivery) list"

section \<open>Formatting\<close>

fun str_nat :: "nat \<Rightarrow> string" where
  "str_nat n =
     (if n < 10 then [char_of (48 + n)]
      else str_nat (n div 10) @ [char_of (48 + n mod 10)])"

declare str_nat.simps [simp del]

definition str_int :: "int \<Rightarrow> string" where
  "str_int i = (if i < 0 then CHR ''-'' # str_nat (nat (- i)) else str_nat (nat i))"

section \<open>The repository\<close>

definition objects_create_delivery ::
  "env \<Rightarrow> db \<Rightarrow> string \<Rightarrow> int \<Rightarrow> string \<Rightarrow> string \<Rightarrow> nat \<Rightarrow> (exn + coffee_delivery) \<times> db" where
  "objects_create_delivery e d ct g st tr t =
     (let row = \<lparr>d_id = next_id d, d_coffee_type = ct, d_group_number = g, d_status = st,
                 d_trigger_type = Some tr, d_started_at = Some t, d_completed_at = None,
                 d_error_message = None\<rparr>
      in case delivery_write_fault e row of
           Some x \<Rightarrow> (Inl x, d)
         | None \<Rightarrow>
             (Inr row, d\<lparr>deliveries := (deliveries d)(next_id d \<mapsto> row),
                         next_id := Suc (next_id d)\<rparr>))"

definition objects_create_log :: "env \<Rightarrow> db \<Rightarrow> maintenance_log \<Rightarrow> exn option \<times> db" where
  "objects_create_log e d row =
     (case log_write_fault e row of
        Some x \<Rightarrow> (Some x, d)
      | None \<Rightarrow> (None, d\<lparr>logs := logs d @ [row]\<rparr>))"

definition objects_get :: "db \<Rightarrow> nat \<Rightarrow> exn + coffee_delivery" where
  "objects_get d i =
     (case deliveries d i of
        None \<Rightarrow> Inl (DoesNotExist ''CoffeeDelivery matching query does not exist.'')
      | Some row \<Rightarrow> Inr row)"

definition save :: "env \<Rightarrow> db \<Rightarrow> coffee_delivery \<Rightarrow> exn option \<times> db" where
  "save e d row =
     (case delivery_write_fault e row of
        Some x \<Rightarrow> (Some x, d)
      | None \<Rightarrow> (None, d\<lparr>deliveries := (deliveries d)(d_id row \<mapsto> row)\<rparr>))"

section \<open>The button monitor\<close>

definition get_coffee_type_from_status :: "status_dict \<Rightarrow> string option" where
  "get_coffee_type_from_status status_dict =
     (if single_short status_dict then Some ''single_short''
      else if single_medium status_dict then Some ''single_medium''
      else if single_long status_dict then Some ''single_long''
      else if double_short status_dict then Some ''double_short''
      else if double_medium status_dict then Some ''double_medium''
      else if double_long status_dict then Some ''double_long''
      else if purge status_dict then Some ''purge''
      else None)"

definition is_delivery_active :: "status_dict \<Rightarrow> bool" where
  "is_delivery_active status_dict =
     list_ex (\<lambda>b. b)
       [single_short status_dict, single_medium status_dict, single_long status_dict,
        double_short status_dict, double_medium status_dict, double_long status_dict,
        purge status_dict]"

text \<open>
  \<open>previous_states.get(group_key, {})\<close>: the empty dict of a group never seen is falsy,
  a stored snapshot is a non-empty dict. A coffee type is returned when it is a
  non-empty string.
\<close>

definition detect_button_press :: "monitor \<Rightarrow> int \<Rightarrow> status_dict \<Rightarrow> string option" where
  "detect_button_press m group_num current_status =
     (let was_active =
            (case previous_states m group_num of
               None \<Rightarrow> False
             | Some previous_status \<Rightarrow> is_delivery_active previous_status);
          is_active = is_delivery_active current_status
      in if \<not> was_active \<and> is_active then
           (case get_coffee_type_from_status current_status of
              None \<Rightarrow> None
            | Some coffee_type \<Rightarrow> if coffee_type \<noteq> [] then Some coffee_type else None)
         else None)"

definition log_type_of :: "string \<Rightarrow> string" where
  "log_type_of coffee_type = (if coffee_type \<noteq> ''purge'' then ''manual_delivery'' else ''purge'')"

definition create_manual_delivery_record ::
  "env \<Rightarrow> db \<Rightarrow> int \<Rightarrow> string \<Rightarrow> (exn + coffee_delivery) \<times> db" where
  "create_manual_delivery_record e d group_num coffee_type =
     (case objects_create_delivery e d coffee_type group_num ''in_progress'' ''manual'' (now e) of
        (Inl x, d1) \<Rightarrow> (Inl x, d1)
      | (Inr delivery, d1) \<Rightarrow>
          (case objects_create_log e d1
                  \<lparr>log_type = log_type_of coffee_type,
                   log_group_number = Some group_num,
                   log_message = ''Manual '' @ coffee_type
                     @ '' delivery started via physical button on group '' @ str_int group_num,
                   log_resolved = None\<rparr> of
             (Some x, d2) \<Rightarrow> (Inl x, d2)
           | (None, d2) \<Rightarrow> (Inr delivery, d2)))"

text \<open>
  The delivery object is mutated before it is saved, so the mutated object is returned
  also when a write fails.
\<close>

definition update_delivery_completion ::
  "env \<Rightarrow> db \<Rightarrow> int \<Rightarrow> coffee_delivery \<Rightarrow> exn option \<times> coffee_delivery \<times> db" where
  "update_delivery_completion e d group_num delivery =
     (let delivery' = delivery\<lparr>d_status := ''completed'', d_completed_at := Some (now e)\<rparr>
      in case save e d delivery' of
           (Some x, d1) \<Rightarrow> (Some x, delivery', d1)
         | (None, d1) \<Rightarrow>
             (case objects_create_log e d1
                     \<lparr>log_type = log_type_of (d_coffee_type delivery'),
                      log_group_number = Some group_num,
                      log_message = ''Manual '' @ d_coffee_type delivery'
                        @ '' delivery completed on group '' @ str_int group_num,
                      log_resolved = None\<rparr> of
                (x, d2) \<Rightarrow> (x, delivery', d2)))"

text \<open>
  The state a cycle threads through its loop: the monitor, the repository and the
  \<open>activities\<close> list built so far.
\<close>

type_synonym cycle_state = "monitor \<times> db \<times> activity list"

text \<open>The body of the \<open>try\<close> block, in three parts. A raise keeps the state reached.\<close>

definition start_phase ::
  "env \<Rightarrow> int \<Rightarrow> status_dict \<Rightarrow> cycle_state \<Rightarrow> exn option \<times> cycle_state" where
  "start_phase e group_num current_status st =
     (case st of (m, d, acts) \<Rightarrow>
        (case detect_button_press m group_num current_status of
           None \<Rightarrow> (None, st)
         | Some coffee_type \<Rightarrow>
             if coffee_type \<noteq> [] then
               (case create_manual_delivery_record e d group_num coffee_type of
                  (Inl x, d1) \<Rightarrow> (Some x, (m, d1, acts))
                | (Inr delivery, d1) \<Rightarrow>
                    (None,
                     (m\<lparr>active_deliveries :=
                          AList.update group_num delivery (active_deliveries m)\<rparr>,
                      d1,
                      acts @ [Delivery_started group_num coffee_type (d_id delivery)])))
             else (None, st)))"

definition completion_phase ::
  "env \<Rightarrow> int \<Rightarrow> status_dict \<Rightarrow> cycle_state \<Rightarrow> exn option \<times> cycle_state" where
  "completion_phase e group_num current_status st =
     (case st of (m, d, acts) \<Rightarrow>
        (let is_active = is_delivery_active current_status
         in case map_of (active_deliveries m) group_num of
              None \<Rightarrow> (None, st)
            | Some delivery \<Rightarrow>
                if \<not> is_active then
                  (case update_delivery_completion e d group_num delivery of
                     (Some x, delivery', d1) \<Rightarrow>
                       (Some x,
                        (m\<lparr>active_deliveries :=
                             AList.update group_num delivery' (active_deliveries m)\<rparr>,
                         d1, acts))
                   | (None, delivery', d1) \<Rightarrow>
                       (None,
                        (m\<lparr>active_deliveries :=
                             AList.delete group_num (active_deliveries m)\<rparr>,
                         d1,
                         acts @ [Delivery_completed group_num (d_coffee_type delivery')
                                   (d_id delivery')])))
                else (None, st)))"

definition try_group :: "env \<Rightarrow> int \<Rightarrow> cycle_state \<Rightarrow> exn option \<times> cycle_state" where
  "try_group e group_num st =
     (case get_group_selection e group_num of
        Inl x \<Rightarrow> (Some x, st)
      | Inr None \<Rightarrow> (None, st)
      | Inr (Some current_status) \<Rightarrow>
          (case start_phase e group_num current_status st of
             (Some x, st1) \<Rightarrow> (Some x, st1)
           | (None, st1) \<Rightarrow>
               (case completion_phase e group_num current_status st1 of
                  (Some x, st2) \<Rightarrow> (Some x, st2)
                | (None, (m, d, acts)) \<Rightarrow>
                    (None,
                     (m\<lparr>previous_states := (previous_states m)(group_num \<mapsto> current_status)\<rparr>,
                      d, acts)))))"

text \<open>One iteration of the loop: the \<open>try\<close> block and its \<open>except Exception\<close>.\<close>

definition monitor_group :: "env \<Rightarrow> int \<Rightarrow> cycle_state \<Rightarrow> cycle_state" where
  "monitor_group e group_num st =
     (case try_group e group_num st of
        (None, st1) \<Rightarrow> st1
      | (Some x, (m, d, acts)) \<Rightarrow> (m, d, acts @ [Error_activity group_num (str_exn x)]))"

primrec monitor_groups :: "env \<Rightarrow> int list \<Rightarrow> cycle_state \<Rightarrow> cycle_state" where
  "monitor_groups e [] st = st"
| "monitor_groups e (group_num # gs) st = monitor_groups e gs (monitor_group e group_num st)"

text \<open>\<open>range(1, min(num_groups + 1, 5))\<close>, with \<open>num_groups\<close> the reported count \<open>or 3\<close>.\<close>

definition group_range :: "int option \<Rightarrow> int list" where
  "group_range reported =
     (let num_groups = (case reported of None \<Rightarrow> 3 | Some n \<Rightarrow> if n = 0 then 3 else n)
      in [1 .. min (num_groups + 1) 5 - 1])"

text \<open>
  A raise of \<open>ensure_connection\<close> or \<open>get_number_of_groups\<close> leaves the cycle before
  anything is written, so \<open>Inl\<close> carries no state.
\<close>

definition monitor_single_cycle ::
  "env \<Rightarrow> monitor \<times> db \<Rightarrow> exn + cycle_result \<times> monitor \<times> db" where
  "monitor_single_cycle e md =
     (case md of (m, d) \<Rightarrow>
        (case ensure_connection e of
           Inl x \<Rightarrow> Inl x
         | Inr False \<Rightarrow>
             Inr (\<lparr>r_status = ''disconnected'', r_timestamp = None, r_activities = [],
                   r_active_deliveries = None\<rparr>, m, d)
         | Inr True \<Rightarrow>
             (case get_number_of_groups e of
                Inl x \<Rightarrow> Inl x
              | Inr reported \<Rightarrow>
                  (case monitor_groups e (group_range reported) (m, d, []) of
                     (m1, d1, activities) \<Rightarrow>
                       Inr (\<lparr>r_status = ''active'', r_timestamp = Some (now e),
                             r_activities = activities,
                             r_active_deliveries = Some (length (active_deliveries m1))\<rparr>,
                            m1, d1)))))"

section \<open>The tasks\<close>

text \<open>
  The body of the \<open>try\<close> block of \<open>deliver_coffee_async\<close>. Besides the repository it
  returns the delivery commands sent to the driver, as \<open>(group, coffee_type)\<close>.
\<close>

definition deliver_coffee_body ::
  "env \<Rightarrow> db \<Rightarrow> nat \<Rightarrow> (exn + bool) \<times> db \<times> (int \<times> string) list" where
  "deliver_coffee_body e d delivery_id =
     (case objects_get d delivery_id of
        Inl x \<Rightarrow> (Inl x, d, [])
      | Inr delivery \<Rightarrow>
          (case ensure_connection e of
             Inl x \<Rightarrow> (Inl x, d, [])
           | Inr False \<Rightarrow>
               (case save e d (delivery\<lparr>d_status := ''failed'',
                        d_error_message := Some ''Failed to connect to machine''\<rparr>) of
                  (Some x, d1) \<Rightarrow> (Inl x, d1, [])
                | (None, d1) \<Rightarrow> (Inr False, d1, []))
           | Inr True \<Rightarrow>
               (let cmds = [(d_group_number delivery, d_coffee_type delivery)]
                in case deliver_coffee e (d_group_number delivery) (d_coffee_type delivery) of
                     Inl x \<Rightarrow> (Inl x, d, cmds)
                   | Inr result \<Rightarrow>
                       (case
                          (if success result then
                             (case save e d (delivery\<lparr>d_status := ''in_progress''\<rparr>) of
                                (Some x, d1) \<Rightarrow> (Inl x, d1)
                              | (None, d1) \<Rightarrow>
                                  (case wait_until_group_is_free e (d_group_number delivery) 120 of
                                     Inl x \<Rightarrow> (Inl x, d1)
                                   | Inr True \<Rightarrow>
                                       (Inr (delivery\<lparr>d_status := ''completed'',
                                               d_completed_at := Some (now e)\<rparr>), d1)
                                   | Inr False \<Rightarrow>
                                       (Inr (delivery\<lparr>d_status := ''failed'',
                                               d_error_message := Some ''Delivery timeout''\<rparr>), d1)))
                           else
                             (Inr (delivery\<lparr>d_status := ''failed'',
                                     d_error_message := Some (message result)\<rparr>), d))
                        of
                          (Inl x, d1) \<Rightarrow> (Inl x, d1, cmds)
                        | (Inr delivery', d1) \<Rightarrow>
                            (case save e d1 delivery' of
                               (Some x, d2) \<Rightarrow> (Inl x, d2, cmds)
                             | (None, d2) \<Rightarrow>
                                 (Inr (d_status delivery' = ''completed''), d2, cmds))))))"

text \<open>
  The task: the body, and the handler of \<open>except Exception\<close>, whose own \<open>try\<close> has a
  bare \<open>except: pass\<close>.
\<close>

definition deliver_coffee_async ::
  "env \<Rightarrow> db \<Rightarrow> nat \<Rightarrow> (exn + bool) \<times> db \<times> (int \<times> string) list" where
  "deliver_coffee_async e d delivery_id =
     (case deliver_coffee_body e d delivery_id of
        (Inr b, d1, cmds) \<Rightarrow> (Inr b, d1, cmds)
      | (Inl x, d1, cmds) \<Rightarrow>
          (case objects_get d1 delivery_id of
             Inl y \<Rightarrow> (Inr False, d1, cmds)
           | Inr delivery \<Rightarrow>
               (case save e d1 (delivery\<lparr>d_status := ''failed'',
                        d_error_message := Some (str_exn x)\<rparr>) of
                  (y, d2) \<Rightarrow> (Inr False, d2, cmds))))"

text \<open>
  The cache holds, for a key, a value and the time at which the entry expires (\<open>None\<close>
  when it was stored with \<open>timeout=None\<close>); times are in seconds. An entry whose expiry
  time has come is no longer found, so one stored with the timeout 0 is never found.
  \<open>truthy\<close> is Python's truth value of a cached value.
\<close>

datatype cache_value = Bool_val bool | Time_val nat

fun truthy :: "cache_value \<Rightarrow> bool" where
  "truthy (Bool_val b) = b"
| "truthy (Time_val t) = True"

type_synonym cache = "string \<rightharpoonup> cache_value \<times> nat option"

definition cache_get :: "cache \<Rightarrow> nat \<Rightarrow> string \<Rightarrow> cache_value \<Rightarrow> cache_value" where
  "cache_get c t key dflt =
     (case c key of
        None \<Rightarrow> dflt
      | Some (v, None) \<Rightarrow> v
      | Some (v, Some expiry) \<Rightarrow> if expiry \<le> t then dflt else v)"

definition cache_set ::
  "cache \<Rightarrow> nat \<Rightarrow> string \<Rightarrow> cache_value \<Rightarrow> nat option \<Rightarrow> cache" where
  "cache_set c t key v timeout = c(key \<mapsto> (v, map_option (\<lambda>s. t + s) timeout))"

text \<open>The singleton: \<open>_monitor_instance\<close> is \<open>None\<close> until the first call.\<close>

definition get_button_monitor :: "monitor option \<Rightarrow> monitor" where
  "get_button_monitor inst =
     (case inst of
        None \<Rightarrow> \<lparr>previous_states = Map.empty, active_deliveries = []\<rparr>
      | Some m \<Rightarrow> m)"

text \<open>The dict \<open>monitor_button_presses\<close> returns.\<close>

datatype task_result =
    Disabled string
  | Cycle cycle_result
  | Task_error string

fun task_status :: "task_result \<Rightarrow> string" where
  "task_status (Disabled msg) = ''disabled''"
| "task_status (Cycle r) = r_status r"
| "task_status (Task_error msg) = ''error''"

type_synonym task_state = "monitor option \<times> db \<times> cache"

definition monitor_button_presses_body ::
  "env \<Rightarrow> task_state \<Rightarrow> (exn + task_result) \<times> task_state" where
  "monitor_button_presses_body e st =
     (case st of (inst, d, c) \<Rightarrow>
        if \<not> truthy (cache_get c (now e) ''button_monitoring_enabled'' (Bool_val True)) then
          (Inr (Disabled ''Button monitoring is disabled''), st)
        else
          (let monitor = get_button_monitor inst
           in case monitor_single_cycle e (monitor, d) of
                Inl x \<Rightarrow> (Inl x, (Some monitor, d, c))
              | Inr (result, m1, d1) \<Rightarrow>
                  (Inr (Cycle result),
                   (Some m1, d1,
                    cache_set c (now e) ''last_button_monitor_check'' (Time_val (now e)) (Some 60)))))"

definition log_monitoring_error ::
  "env \<Rightarrow> exn \<Rightarrow> task_state \<Rightarrow> (exn + task_result) \<times> task_state" where
  "log_monitoring_error e x st =
     (case st of (inst, d, c) \<Rightarrow>
        (case objects_create_log e d
                \<lparr>log_type = ''connection_issue'', log_group_number = None,
                 log_message = ''Button monitoring error: '' @ str_exn x,
                 log_resolved = Some False\<rparr> of
           (Some y, d1) \<Rightarrow> (Inl y, (inst, d1, c))
         | (None, d1) \<Rightarrow> (Inr (Task_error (str_exn x)), (inst, d1, c))))"

text \<open>The task: the body, and the handler of \<open>except Exception\<close>, which writes a log row.\<close>

definition monitor_button_presses ::
  "env \<Rightarrow> task_state \<Rightarrow> (exn + task_result) \<times> task_state" where
  "monitor_button_presses e st =
     (case monitor_button_presses_body e st of
        (Inr r, st1) \<Rightarrow> (Inr r, st1)
      | (Inl x, st1) \<Rightarrow> log_monitoring_error e x st1)"

section \<open>Notions used by the properties\<close>

text \<open>The priority order of the coffee types, as the specification lists it.\<close>

definition priority_order :: "(string \<times> (status_dict \<Rightarrow> bool)) list" where
  "priority_order =
     [(''single_short'', single_short), (''single_medium'', single_medium),
      (''single_long'', single_long), (''double_short'', double_short),
      (''double_medium'', double_medium), (''double_long'', double_long),
      (''purge'', purge)]"

definition first_in_priority :: "status_dict \<Rightarrow> string option" where
  "first_in_priority s = map_option fst (find (\<lambda>(name, flag). flag s) priority_order)"

text \<open>Whether the stored previous snapshot of a group is active; false when none is stored.\<close>

definition was_active :: "monitor \<Rightarrow> int \<Rightarrow> bool" where
  "was_active m g =
     (case previous_states m g of None \<Rightarrow> False | Some p \<Rightarrow> is_delivery_active p)"

text \<open>The activities and the log rows of one group.\<close>

definition group_acts :: "int \<Rightarrow> activity list \<Rightarrow> activity list" where
  "group_acts g acts = filter (\<lambda>a. activity_group a = g) acts"

definition group_logs :: "int \<Rightarrow> maintenance_log list \<Rightarrow> maintenance_log list" where
  "group_logs g ls = filter (\<lambda>l. log_group_number l = Some g) ls"

text \<open>A delivery marked failed, and a row stored under its primary key.\<close>

definition failed_with :: "coffee_delivery \<Rightarrow> string \<Rightarrow> coffee_delivery" where
  "failed_with delivery msg = delivery\<lparr>d_status := ''failed'', d_error_message := Some msg\<rparr>"

definition put_delivery :: "db \<Rightarrow> coffee_delivery \<Rightarrow> db" where
  "put_delivery d row = d\<lparr>deliveries := (deliveries d)(d_id row \<mapsto> row)\<rparr>"

text \<open>
  What the state of a cycle holds about one group: its previous snapshot, its open
  delivery, its activities and its log rows.
\<close>

fun group_view ::
  "int \<Rightarrow> cycle_state \<Rightarrow>
     status_dict option \<times> coffee_delivery option \<times> activity list \<times> maintenance_log list" where
  "group_view g (m, d, acts) =
     (previous_states m g, map_of (active_deliveries m) g, group_acts g acts,
      group_logs g (logs d))"

text \<open>
  No write of a delivery row or of a log row of the group fails.
\<close>

definition writes_succeed_for :: "int \<Rightarrow> env \<Rightarrow> bool" where
  "writes_succeed_for g e =
     ((\<forall>row. d_group_number row = g \<longrightarrow> delivery_write_fault e row = None)
      \<and> (\<forall>row. log_group_number row = Some g \<longrightarrow> log_write_fault e row = None))"

text \<open>
  The snapshot of a group that a cycle processes: the machine is connected, the group is
  enumerated, and its status is read.
\<close>

definition observes :: "int \<Rightarrow> env \<Rightarrow> status_dict option" where
  "observes g e =
     (case (ensure_connection e, get_number_of_groups e, get_group_selection e g) of
        (Inr True, Inr n, Inr (Some cur)) \<Rightarrow> if g \<in> set (group_range n) then Some cur else None
      | _ \<Rightarrow> None)"

text \<open>
  A poll that reads a snapshot of the group with some flag set, and one that reads a
  snapshot with no flag set.
\<close>

definition active_poll :: "int \<Rightarrow> env \<Rightarrow> bool" where
  "active_poll g e = (case observes g e of None \<Rightarrow> False | Some cur \<Rightarrow> is_delivery_active cur)"

definition idle_poll :: "int \<Rightarrow> env \<Rightarrow> bool" where
  "idle_poll g e = (case observes g e of None \<Rightarrow> False | Some cur \<Rightarrow> \<not> is_delivery_active cur)"

text \<open>
  One invocation by the scheduler: a cycle that raises leaves the state as it was.
\<close>

definition cycle_step :: "env \<Rightarrow> monitor \<times> db \<Rightarrow> (exn + cycle_result) \<times> (monitor \<times> db)" where
  "cycle_step e md =
     (case monitor_single_cycle e md of
        Inl x \<Rightarrow> (Inl x, md)
      | Inr (r, md1) \<Rightarrow> (Inr r, md1))"

text \<open>
  Successive invocations, one per poll, on the state the previous one left.
\<close>

primrec run_cycles ::
  "env list \<Rightarrow> monitor \<times> db \<Rightarrow> (exn + cycle_result) list \<times> (monitor \<times> db)" where
  "run_cycles [] md = ([], md)"
| "run_cycles (e # es) md =
     (case cycle_step e md of
        (r, md1) \<Rightarrow> (case run_cycles es md1 of (rs, md2) \<Rightarrow> (r # rs, md2)))"

text \<open>
  What each invocation reported for one group: \<open>None\<close> when the cycle raised.
\<close>

definition group_step :: "int \<Rightarrow> exn + cycle_result \<Rightarrow> activity list option" where
  "group_step g r = (case r of Inl x \<Rightarrow> None | Inr res \<Rightarrow> Some (group_acts g (r_activities res)))"

definition group_trace :: "int \<Rightarrow> (exn + cycle_result) list \<Rightarrow> activity list option list" where
  "group_trace g rs = map (group_step g) rs"

text \<open>
  The open delivery stored under a group, if any, is a delivery of that group.
\<close>

definition tracked_under_own_group :: "monitor \<Rightarrow> int \<Rightarrow> bool" where
  "tracked_under_own_group m g =
     (case map_of (active_deliveries m) g of None \<Rightarrow> True | Some dl \<Rightarrow> d_group_number dl = g)"

text \<open>The activities a cycle returns, \<open>None\<close> when it raises.\<close>

definition cycle_activities :: "env \<Rightarrow> monitor \<times> db \<Rightarrow> activity list option" where
  "cycle_activities e md =
     (case monitor_single_cycle e md of Inl x \<Rightarrow> None | Inr (r, md1) \<Rightarrow> Some (r_activities r))"

text \<open>
  The two dicts of a monitor agree: a group has an open delivery exactly when its stored
  previous snapshot is active.
\<close>

definition tracking_consistent :: "monitor \<Rightarrow> bool" where
  "tracking_consistent m = (\<forall>g. (map_of (active_deliveries m) g \<noteq> None) = was_active m g)"

text \<open>
  The repository after the handler of the delivery task has tried to record a fault: the
  stored row marked failed with the description of the fault, or the repository as it
  was when there is no row or when that write fails as well.
\<close>

definition recorded_failure :: "env \<Rightarrow> db \<Rightarrow> nat \<Rightarrow> exn \<Rightarrow> db" where
  "recorded_failure e d i x =
     (case deliveries d i of
        None \<Rightarrow> d
      | Some row \<Rightarrow>
          (case delivery_write_fault e (failed_with row (str_exn x)) of
             None \<Rightarrow> put_delivery d (failed_with row (str_exn x))
           | Some y \<Rightarrow> d))"

section \<open>Concrete inputs\<close>

definition no_flags :: status_dict where
  "no_flags =
     \<lparr>single_short = False, single_medium = False, single_long = False, double_short = False,
      double_medium = False, double_long = False, purge = False\<rparr>"

definition short_pressed :: status_dict where
  "short_pressed = no_flags\<lparr>single_short := True\<rparr>"

definition fresh_monitor :: monitor where
  "fresh_monitor = \<lparr>previous_states = Map.empty, active_deliveries = []\<rparr>"

definition empty_db :: db where
  "empty_db = \<lparr>deliveries = Map.empty, logs = [], next_id = 0\<rparr>"

definition open_delivery :: coffee_delivery where
  "open_delivery =
     \<lparr>d_id = 0, d_coffee_type = ''single_short'', d_group_number = 1,
      d_status = ''in_progress'', d_trigger_type = Some ''manual'', d_started_at = Some 90,
      d_completed_at = None, d_error_message = None\<rparr>"

definition busy_monitor :: monitor where
  "busy_monitor =
     \<lparr>previous_states = [1 \<mapsto> short_pressed], active_deliveries = [(1, open_delivery)]\<rparr>"

definition busy_db :: db where
  "busy_db = \<lparr>deliveries = [0 \<mapsto> open_delivery], logs = [], next_id = 1\<rparr>"

text \<open>
  A machine that is connected or not, reports two groups and answers the status of a
  group with the given function; every write succeeds.
\<close>

definition test_env :: "bool \<Rightarrow> (int \<Rightarrow> exn + status_dict option) \<Rightarrow> env" where
  "test_env connected selection =
     \<lparr>ensure_connection = Inr connected,
      get_number_of_groups = Inr (Some 2),
      get_group_selection = selection,
      deliver_coffee = (\<lambda>g c. Inr \<lparr>success = True, message = ''started''\<rparr>),
      wait_until_group_is_free = (\<lambda>g t. Inr True),
      now = 100,
      delivery_write_fault = (\<lambda>row. None),
      log_write_fault = (\<lambda>row. None)\<rparr>"

definition pending_delivery :: coffee_delivery where
  "pending_delivery =
     \<lparr>d_id = 7, d_coffee_type = ''double_long'', d_group_number = 2,
      d_status = ''pending'', d_trigger_type = Some ''automatic'', d_started_at = None,
      d_completed_at = None, d_error_message = None\<rparr>"

definition request_db :: db where
  "request_db = \<lparr>deliveries = [7 \<mapsto> pending_delivery], logs = [], next_id = 8\<rparr>"

definition all_idle :: "int \<Rightarrow> exn + status_dict option" where
  "all_idle g = Inr (Some no_flags)"

definition rejecting_env :: env where
  "rejecting_env =
     (test_env True all_idle)
       \<lparr>deliver_coffee := (\<lambda>g c. Inr \<lparr>success = False, message = ''group busy''\<rparr>)\<rparr>"

definition slow_env :: env where
  "slow_env = (test_env True all_idle)\<lparr>wait_until_group_is_free := (\<lambda>g t. Inr False)\<rparr>"

definition broken_wait_env :: env where
  "broken_wait_env =
     (test_env True all_idle)
       \<lparr>wait_until_group_is_free := (\<lambda>g t. Inl (DriverError ''serial port closed''))\<rparr>"

definition locked_env :: env where
  "locked_env =
     broken_wait_env
       \<lparr>delivery_write_fault :=
          (\<lambda>row. if d_status row = ''failed'' then Some (PersistenceError ''database is locked'')
                 else None)\<rparr>"

definition short_on_one :: "int \<Rightarrow> exn + status_dict option" where
  "short_on_one g = Inr (Some (if g = 1 then short_pressed else no_flags))"

definition untracked_monitor :: monitor where
  "untracked_monitor = \<lparr>previous_states = [1 \<mapsto> short_pressed], active_deliveries = []\<rparr>"

definition locked_db_env :: env where
  "locked_db_env =
     (test_env True short_on_one)
       \<lparr>delivery_write_fault := (\<lambda>row. Some (PersistenceError ''database is locked''))\<rparr>"

definition log_locked_env :: env where
  "log_locked_env =
     (test_env True short_on_one)
       \<lparr>log_write_fault := (\<lambda>row. Some (PersistenceError ''log table is locked''))\<rparr>"

definition final_write_locked_env :: env where
  "final_write_locked_env =
     (test_env True all_idle)
       \<lparr>delivery_write_fault :=
          (\<lambda>row. if d_status row = ''completed''
                 then Some (PersistenceError ''database is locked'') else None)\<rparr>"

definition none_on_one :: "int \<Rightarrow> exn + status_dict option" where
  "none_on_one g = (if g = 1 then Inr None else Inr (Some short_pressed))"

definition raise_on_one :: "int \<Rightarrow> exn + status_dict option" where
  "raise_on_one g = (if g = 1 then Inl (DriverError ''read timeout'') else Inr (Some short_pressed))"

section \<open>Properties\<close>

subsection \<open>Classification of one snapshot\<close>

text \<open>
  C9. The coffee type resolved from a snapshot is the first true flag in the order
  single_short, single_medium, single_long, double_short, double_medium, double_long,
  purge; a snapshot is active exactly when there is such a flag; and a button press is
  detected, with that coffee type, exactly when the group was not active before and the
  snapshot is active.
\<close>

theorem coffee_type_priority:
  "get_coffee_type_from_status s = first_in_priority s
   \<and> is_delivery_active s = (first_in_priority s \<noteq> None)
   \<and> detect_button_press m g s =
       (if \<not> was_active m g \<and> is_delivery_active s then first_in_priority s else None)"
  by (simp add: get_coffee_type_from_status_def first_in_priority_def priority_order_def
      is_delivery_active_def detect_button_press_def was_active_def)

text \<open>
  C2, as stated, fails: with no previous snapshot stored, a snapshot with the
  single_short flag set is classified as the start of a single_short delivery.
\<close>

theorem first_observation_counterexample:
  "detect_button_press fresh_monitor 1 short_pressed = Some ''single_short''"
  by (simp add: detect_button_press_def is_delivery_active_def
      get_coffee_type_from_status_def fresh_monitor_def short_pressed_def no_flags_def)

text \<open>
  C2, amended. For a group with no previous snapshot stored, the group counts as not
  active before: the current snapshot is classified as a start exactly when one of its
  flags is set, with the coffee type resolved from it, and as nothing otherwise.
\<close>

theorem first_observation_start:
  "previous_states m g = None \<Longrightarrow>
   \<not> was_active m g
   \<and> detect_button_press m g s =
       (if is_delivery_active s then get_coffee_type_from_status s else None)"
  by (simp add: detect_button_press_def is_delivery_active_def
      get_coffee_type_from_status_def was_active_def)

theorem first_observation_start_witness:
  "previous_states fresh_monitor 2 = None
   \<and> \<not> was_active fresh_monitor 2
   \<and> detect_button_press fresh_monitor 2 (no_flags\<lparr>double_long := True, purge := True\<rparr>)
       = Some ''double_long''
   \<and> detect_button_press fresh_monitor 2 no_flags = None"
  using first_observation_start [of fresh_monitor 2 "no_flags\<lparr>double_long := True, purge := True\<rparr>"]
    first_observation_start [of fresh_monitor 2 no_flags]
  by (simp add: fresh_monitor_def no_flags_def is_delivery_active_def
      get_coffee_type_from_status_def)

subsection \<open>A cycle without connection\<close>

text \<open>
  C8. When the connection cannot be established, the cycle returns the status
  disconnected with no activities, and the previous snapshots, the open deliveries and the
  repository are the ones before the cycle.
\<close>

theorem disconnected_cycle:
  "ensure_connection e = Inr False \<Longrightarrow>
   monitor_single_cycle e (m, d) =
     Inr (\<lparr>r_status = ''disconnected'', r_timestamp = None, r_activities = [],
           r_active_deliveries = None\<rparr>, m, d)"
  by (simp add: monitor_single_cycle_def)

theorem disconnected_cycle_witness:
  "ensure_connection (test_env False (\<lambda>g. Inr (Some no_flags))) = Inr False
   \<and> monitor_single_cycle (test_env False (\<lambda>g. Inr (Some no_flags))) (busy_monitor, busy_db) =
       Inr (\<lparr>r_status = ''disconnected'', r_timestamp = None, r_activities = [],
             r_active_deliveries = None\<rparr>, busy_monitor, busy_db)
   \<and> map_of (active_deliveries busy_monitor) 1 = Some open_delivery
   \<and> deliveries busy_db 0 = Some open_delivery
   \<and> d_status open_delivery = ''in_progress''"
  using disconnected_cycle [of "test_env False (\<lambda>g. Inr (Some no_flags))" busy_monitor busy_db]
  by (simp add: test_env_def busy_monitor_def busy_db_def open_delivery_def)

subsection \<open>One group inside a cycle\<close>

text \<open>
  Processing a group touches nothing that belongs to another group, so what a cycle does
  for a group is what one iteration of the loop does for it.
\<close>

lemma group_range_two: "group_range (Some 2) = [1, 2]"
  by (simp add: group_range_def upto.simps)

lemma distinct_group_range: "distinct (group_range n)"
  by (simp add: group_range_def Let_def)

lemmas cycle_defs =
  cycle_step_def monitor_single_cycle_def monitor_group_def try_group_def start_phase_def
  completion_phase_def detect_button_press_def is_delivery_active_def
  get_coffee_type_from_status_def create_manual_delivery_record_def
  update_delivery_completion_def objects_create_delivery_def objects_create_log_def save_def
  group_range_two Let_def

lemma group_acts_Nil: "group_acts g [] = []"
  by (simp add: group_acts_def)

lemma active_coffee_type:
  "is_delivery_active cur \<Longrightarrow> \<exists>ct. get_coffee_type_from_status cur = Some ct \<and> ct \<noteq> []"
  by (auto simp add: is_delivery_active_def get_coffee_type_from_status_def)

lemma observesD:
  "observes g e = Some cur \<Longrightarrow>
   ensure_connection e = Inr True
   \<and> (\<exists>n. get_number_of_groups e = Inr n \<and> g \<in> set (group_range n))
   \<and> get_group_selection e g = Inr (Some cur)"
  by (auto simp add: observes_def split: sum.splits option.splits bool.splits if_splits)

lemma create_record_logs:
  "create_manual_delivery_record e d g' ct = (x, d1) \<Longrightarrow> g \<noteq> g' \<Longrightarrow>
   group_logs g (logs d1) = group_logs g (logs d)"
  by (auto simp add: create_manual_delivery_record_def objects_create_delivery_def
      objects_create_log_def group_logs_def Let_def split: option.splits)

lemma update_completion_logs:
  "update_delivery_completion e d g' dl = (x, dl', d1) \<Longrightarrow> g \<noteq> g' \<Longrightarrow>
   group_logs g (logs d1) = group_logs g (logs d)"
  by (auto simp add: update_delivery_completion_def save_def
      objects_create_log_def group_logs_def Let_def split: option.splits)

lemma start_phase_frame:
  "start_phase e g' cur st = (x, st1) \<Longrightarrow> g \<noteq> g' \<Longrightarrow> group_view g st1 = group_view g st"
  by (cases st)
    (auto simp add: start_phase_def update_conv' group_acts_def
      dest: create_record_logs split: option.splits if_splits prod.splits sum.splits)

lemma completion_phase_frame:
  "completion_phase e g' cur st = (x, st1) \<Longrightarrow> g \<noteq> g' \<Longrightarrow> group_view g st1 = group_view g st"
  by (cases st)
    (auto simp add: completion_phase_def update_conv' delete_conv' group_acts_def Let_def
      dest: update_completion_logs split: option.splits if_splits prod.splits)

lemma try_group_frame:
  "try_group e g' st = (x, st1) \<Longrightarrow> g \<noteq> g' \<Longrightarrow> group_view g st1 = group_view g st"
  apply (cases st)
  apply (auto simp add: try_group_def split: sum.splits option.splits prod.splits
      dest!: start_phase_frame [where g = g] completion_phase_frame [where g = g])
  done

lemma monitor_group_frame:
  "g \<noteq> g' \<Longrightarrow> group_view g (monitor_group e g' st) = group_view g st"
  apply (cases "try_group e g' st")
  apply (auto simp add: monitor_group_def group_acts_def split: option.splits prod.splits
      dest!: try_group_frame [where g = g])
  done

lemma monitor_groups_frame:
  "g \<notin> set gs \<Longrightarrow> group_view g (monitor_groups e gs st) = group_view g st"
  by (induction gs arbitrary: st) (auto simp add: monitor_group_frame)

lemma monitor_groups_append:
  "monitor_groups e (xs @ ys) st = monitor_groups e ys (monitor_groups e xs st)"
  by (induction xs arbitrary: st) auto

lemma monitor_groups_view:
  assumes "distinct gs" and "g \<in> set gs"
  shows "\<exists>st1. group_view g st1 = group_view g st
           \<and> group_view g (monitor_groups e gs st) = group_view g (monitor_group e g st1)"
proof -
  from assms(2) obtain xs ys where gs: "gs = xs @ g # ys"
    by (auto simp add: in_set_conv_decomp)
  with assms(1) have out: "g \<notin> set xs" "g \<notin> set ys" by auto
  let ?st1 = "monitor_groups e xs st"
  have "group_view g ?st1 = group_view g st"
    using out(1) by (rule monitor_groups_frame)
  moreover have "group_view g (monitor_groups e gs st) = group_view g (monitor_group e g ?st1)"
    using out(2) by (simp add: gs monitor_groups_append monitor_groups_frame)
  ultimately show ?thesis by blast
qed

lemma cycle_view:
  assumes "ensure_connection e = Inr True" and "get_number_of_groups e = Inr n"
    and "g \<in> set (group_range n)"
  shows "\<exists>r m1 d1 st1. monitor_single_cycle e (m, d) = Inr (r, m1, d1)
           \<and> r_status r = ''active''
           \<and> group_view g st1 = group_view g (m, d, [])
           \<and> group_view g (m1, d1, r_activities r) = group_view g (monitor_group e g st1)"
proof -
  obtain st1 where st1: "group_view g st1 = group_view g (m, d, [])"
    "group_view g (monitor_groups e (group_range n) (m, d, [])) =
       group_view g (monitor_group e g st1)"
    using monitor_groups_view [OF distinct_group_range assms(3)] by blast
  obtain m1 d1 acts1 where fin: "monitor_groups e (group_range n) (m, d, []) = (m1, d1, acts1)"
    by (cases "monitor_groups e (group_range n) (m, d, [])") auto
  let ?r = "\<lparr>r_status = ''active'', r_timestamp = Some (now e), r_activities = acts1,
             r_active_deliveries = Some (length (active_deliveries m1))\<rparr>"
  have "monitor_single_cycle e (m, d) = Inr (?r, m1, d1)"
    using assms(1,2) fin by (simp add: monitor_single_cycle_def)
  moreover have "group_view g (m1, d1, r_activities ?r) = group_view g (monitor_group e g st1)"
    using st1(2) fin by simp
  ultimately show ?thesis
    using st1(1) by (intro exI [of _ ?r] exI [of _ m1] exI [of _ d1] exI [of _ st1]) simp
qed

lemma local_raise:
  "get_group_selection e g = Inl x \<Longrightarrow>
   monitor_group e g (m, d, acts) = (m, d, acts @ [Error_activity g (str_exn x)])"
  by (simp add: monitor_group_def try_group_def)

lemma local_none:
  "get_group_selection e g = Inr None \<Longrightarrow> monitor_group e g st = st"
  by (simp add: monitor_group_def try_group_def)

lemma local_hold:
  "get_group_selection e g = Inr (Some cur) \<Longrightarrow> is_delivery_active cur \<Longrightarrow> was_active m g \<Longrightarrow>
   monitor_group e g (m, d, acts) =
     (m\<lparr>previous_states := (previous_states m)(g \<mapsto> cur)\<rparr>, d, acts)"
  by (simp add: monitor_group_def try_group_def start_phase_def completion_phase_def
      detect_button_press_def was_active_def split: option.splits)

lemma local_idle:
  "get_group_selection e g = Inr (Some cur) \<Longrightarrow> \<not> is_delivery_active cur \<Longrightarrow>
   map_of (active_deliveries m) g = None \<Longrightarrow>
   monitor_group e g (m, d, acts) =
     (m\<lparr>previous_states := (previous_states m)(g \<mapsto> cur)\<rparr>, d, acts)"
  by (simp add: monitor_group_def try_group_def start_phase_def completion_phase_def
      detect_button_press_def split: option.splits)

lemma local_start:
  assumes "get_group_selection e g = Inr (Some cur)" and "is_delivery_active cur"
    and "\<not> was_active m g" and "writes_succeed_for g e"
    and "get_coffee_type_from_status cur = Some ct"
  shows "\<exists>dl lg. group_view g (monitor_group e g (m, d, acts)) =
           (Some cur, Some dl, group_acts g acts @ [Delivery_started g ct (d_id dl)],
            group_logs g (logs d) @ [lg])
         \<and> d_group_number dl = g \<and> d_coffee_type dl = ct \<and> d_status dl = ''in_progress''
         \<and> d_id dl = next_id d"
proof -
  from assms(2,5) have ct: "ct \<noteq> []"
    by (auto simp add: is_delivery_active_def get_coffee_type_from_status_def split: if_splits)
  have det: "detect_button_press m g cur = Some ct"
    using assms(2,3,5) ct by (simp add: detect_button_press_def was_active_def)
  show ?thesis
    using assms(1,2,4) ct det
    by (simp add: monitor_group_def try_group_def start_phase_def completion_phase_def
        create_manual_delivery_record_def objects_create_delivery_def objects_create_log_def
        writes_succeed_for_def update_conv' group_acts_def group_logs_def Let_def)
qed

lemma local_complete:
  assumes "get_group_selection e g = Inr (Some cur)" and "\<not> is_delivery_active cur"
    and "map_of (active_deliveries m) g = Some dl" and "d_group_number dl = g"
    and "writes_succeed_for g e"
  shows "\<exists>lg. group_view g (monitor_group e g (m, d, acts)) =
           (Some cur, None,
            group_acts g acts @ [Delivery_completed g (d_coffee_type dl) (d_id dl)],
            group_logs g (logs d) @ [lg])"
  using assms
  by (simp add: monitor_group_def try_group_def start_phase_def completion_phase_def
      detect_button_press_def update_delivery_completion_def save_def objects_create_log_def
      writes_succeed_for_def delete_conv' group_acts_def group_logs_def Let_def)

lemma local_start_fault:
  assumes "get_group_selection e g = Inr (Some cur)" and "is_delivery_active cur"
    and "\<not> was_active m g"
    and "\<forall>row. d_group_number row = g \<longrightarrow> delivery_write_fault e row = Some x"
  shows "monitor_group e g (m, d, acts) = (m, d, acts @ [Error_activity g (str_exn x)])"
proof -
  from active_coffee_type [OF assms(2)] obtain ct
    where ct: "get_coffee_type_from_status cur = Some ct" "ct \<noteq> []" by blast
  have det: "detect_button_press m g cur = Some ct"
    using assms(2,3) ct by (simp add: detect_button_press_def was_active_def)
  show ?thesis
    using assms(1,4) ct det
    by (simp add: monitor_group_def try_group_def start_phase_def
        create_manual_delivery_record_def objects_create_delivery_def)
qed

lemma local_complete_fault:
  assumes "get_group_selection e g = Inr (Some cur)" and "\<not> is_delivery_active cur"
    and "map_of (active_deliveries m) g = Some dl" and "d_group_number dl = g"
    and "\<forall>row. d_group_number row = g \<longrightarrow> delivery_write_fault e row = Some x"
  shows "monitor_group e g (m, d, acts) =
           (m\<lparr>active_deliveries :=
                AList.update g (dl\<lparr>d_status := ''completed'', d_completed_at := Some (now e)\<rparr>)
                  (active_deliveries m)\<rparr>,
            d, acts @ [Error_activity g (str_exn x)])"
  using assms
  by (simp add: monitor_group_def try_group_def start_phase_def completion_phase_def
      detect_button_press_def update_delivery_completion_def save_def)

lemma local_start_log_fault:
  assumes "get_group_selection e g = Inr (Some cur)" and "is_delivery_active cur"
    and "\<not> was_active m g"
    and "\<forall>row. d_group_number row = g \<longrightarrow> delivery_write_fault e row = None"
    and "\<forall>row. log_group_number row = Some g \<longrightarrow> log_write_fault e row = Some y"
  shows "\<exists>d1. monitor_group e g (m, d, acts) = (m, d1, acts @ [Error_activity g (str_exn y)])
           \<and> logs d1 = logs d"
proof -
  from active_coffee_type [OF assms(2)] obtain ct
    where ct: "get_coffee_type_from_status cur = Some ct" "ct \<noteq> []" by blast
  have det: "detect_button_press m g cur = Some ct"
    using assms(2,3) ct by (simp add: detect_button_press_def was_active_def)
  show ?thesis
    using assms(1,4,5) ct det
    by (simp add: monitor_group_def try_group_def start_phase_def
        create_manual_delivery_record_def objects_create_delivery_def objects_create_log_def
        Let_def)
qed

lemma local_complete_log_fault:
  assumes "get_group_selection e g = Inr (Some cur)" and "\<not> is_delivery_active cur"
    and "map_of (active_deliveries m) g = Some dl" and "d_group_number dl = g"
    and "\<forall>row. d_group_number row = g \<longrightarrow> delivery_write_fault e row = None"
    and "\<forall>row. log_group_number row = Some g \<longrightarrow> log_write_fault e row = Some y"
  shows "\<exists>m1 d1. monitor_group e g (m, d, acts) = (m1, d1, acts @ [Error_activity g (str_exn y)])
           \<and> previous_states m1 = previous_states m \<and> logs d1 = logs d"
  using assms
  by (simp add: monitor_group_def try_group_def start_phase_def completion_phase_def
      detect_button_press_def update_delivery_completion_def save_def objects_create_log_def
      Let_def)

lemma local_processed:
  assumes "get_group_selection e g = Inr (Some cur)" and "writes_succeed_for g e"
    and "tracked_under_own_group m g"
  shows "fst (group_view g (monitor_group e g (m, d, acts))) = Some cur"
proof (cases "is_delivery_active cur")
  case True
  show ?thesis
  proof (cases "was_active m g")
    case True
    from local_hold [OF assms(1) \<open>is_delivery_active cur\<close> this] show ?thesis by simp
  next
    case False
    from active_coffee_type [OF \<open>is_delivery_active cur\<close>] obtain ct where
      "get_coffee_type_from_status cur = Some ct" by blast
    from local_start [OF assms(1) \<open>is_delivery_active cur\<close> False assms(2) this, of d acts]
    show ?thesis by auto
  qed
next
  case False
  show ?thesis
  proof (cases "map_of (active_deliveries m) g")
    case None
    from local_idle [OF assms(1) False this] show ?thesis by simp
  next
    case (Some dl)
    with assms(3) have "d_group_number dl = g" by (simp add: tracked_under_own_group_def)
    from local_complete [OF assms(1) False Some this assms(2), of d acts]
    show ?thesis by auto
  qed
qed

lemma cycle_idle:
  assumes "observes g e = Some cur" and "\<not> is_delivery_active cur"
    and "map_of (active_deliveries m) g = None"
  shows "\<exists>r m1 d1. cycle_step e (m, d) = (Inr r, m1, d1)
           \<and> group_acts g (r_activities r) = []
           \<and> previous_states m1 g = Some cur
           \<and> map_of (active_deliveries m1) g = None
           \<and> group_logs g (logs d1) = group_logs g (logs d)"
proof -
  from observesD [OF assms(1)] obtain n where env:
    "ensure_connection e = Inr True" "get_number_of_groups e = Inr n"
    "g \<in> set (group_range n)" "get_group_selection e g = Inr (Some cur)" by blast
  from cycle_view [OF env(1,2,3), of m d] obtain r m1 d1 ma da aa where c:
    "monitor_single_cycle e (m, d) = Inr (r, m1, d1)"
    "group_view g (ma, da, aa) = group_view g (m, d, [])"
    "group_view g (m1, d1, r_activities r) = group_view g (monitor_group e g (ma, da, aa))"
    by (metis prod_cases3)
  from c(2) assms(3) have "map_of (active_deliveries ma) g = None" by simp
  from local_idle [OF env(4) assms(2) this, of da aa] c(2,3)
  have "group_view g (m1, d1, r_activities r) = (Some cur, None, [], group_logs g (logs d))"
    by (simp add: group_acts_Nil assms(3))
  with c(1) show ?thesis by (simp add: cycle_step_def)
qed

lemma cycle_hold:
  assumes "observes g e = Some cur" and "is_delivery_active cur" and "was_active m g"
  shows "\<exists>r m1 d1. cycle_step e (m, d) = (Inr r, m1, d1)
           \<and> group_acts g (r_activities r) = []
           \<and> previous_states m1 g = Some cur
           \<and> map_of (active_deliveries m1) g = map_of (active_deliveries m) g
           \<and> group_logs g (logs d1) = group_logs g (logs d)"
proof -
  from observesD [OF assms(1)] obtain n where env:
    "ensure_connection e = Inr True" "get_number_of_groups e = Inr n"
    "g \<in> set (group_range n)" "get_group_selection e g = Inr (Some cur)" by blast
  from cycle_view [OF env(1,2,3), of m d] obtain r m1 d1 ma da aa where c:
    "monitor_single_cycle e (m, d) = Inr (r, m1, d1)"
    "group_view g (ma, da, aa) = group_view g (m, d, [])"
    "group_view g (m1, d1, r_activities r) = group_view g (monitor_group e g (ma, da, aa))"
    by (metis prod_cases3)
  from c(2) assms(3) have "was_active ma g" by (simp add: was_active_def)
  from local_hold [OF env(4) assms(2) this, of da aa] c(2,3)
  have "group_view g (m1, d1, r_activities r) =
          (Some cur, map_of (active_deliveries m) g, [], group_logs g (logs d))"
    by (simp add: group_acts_Nil)
  with c(1) show ?thesis by (simp add: cycle_step_def)
qed

lemma cycle_start:
  assumes "observes g e = Some cur" and "is_delivery_active cur" and "\<not> was_active m g"
    and "writes_succeed_for g e" and "get_coffee_type_from_status cur = Some ct"
  shows "\<exists>r m1 d1 dl. cycle_step e (m, d) = (Inr r, m1, d1)
           \<and> group_acts g (r_activities r) = [Delivery_started g ct (d_id dl)]
           \<and> previous_states m1 g = Some cur
           \<and> map_of (active_deliveries m1) g = Some dl
           \<and> d_group_number dl = g \<and> d_coffee_type dl = ct \<and> d_status dl = ''in_progress''"
proof -
  from observesD [OF assms(1)] obtain n where env:
    "ensure_connection e = Inr True" "get_number_of_groups e = Inr n"
    "g \<in> set (group_range n)" "get_group_selection e g = Inr (Some cur)" by blast
  from cycle_view [OF env(1,2,3), of m d] obtain r m1 d1 ma da aa where c:
    "monitor_single_cycle e (m, d) = Inr (r, m1, d1)"
    "group_view g (ma, da, aa) = group_view g (m, d, [])"
    "group_view g (m1, d1, r_activities r) = group_view g (monitor_group e g (ma, da, aa))"
    by (metis prod_cases3)
  from c(2) assms(3) have "\<not> was_active ma g" by (simp add: was_active_def)
  from local_start [OF env(4) assms(2) this assms(4,5), of da aa] obtain dl lg where
    "group_view g (monitor_group e g (ma, da, aa)) =
       (Some cur, Some dl, group_acts g aa @ [Delivery_started g ct (d_id dl)],
        group_logs g (logs da) @ [lg])"
    "d_group_number dl = g" "d_coffee_type dl = ct" "d_status dl = ''in_progress''"
    by blast
  with c show ?thesis by (simp add: cycle_step_def group_acts_Nil)
qed

lemma cycle_complete:
  assumes "observes g e = Some cur" and "\<not> is_delivery_active cur"
    and "map_of (active_deliveries m) g = Some dl" and "d_group_number dl = g"
    and "writes_succeed_for g e"
  shows "\<exists>r m1 d1. cycle_step e (m, d) = (Inr r, m1, d1)
           \<and> group_acts g (r_activities r) = [Delivery_completed g (d_coffee_type dl) (d_id dl)]
           \<and> previous_states m1 g = Some cur
           \<and> map_of (active_deliveries m1) g = None"
proof -
  from observesD [OF assms(1)] obtain n where env:
    "ensure_connection e = Inr True" "get_number_of_groups e = Inr n"
    "g \<in> set (group_range n)" "get_group_selection e g = Inr (Some cur)" by blast
  from cycle_view [OF env(1,2,3), of m d] obtain r m1 d1 ma da aa where c:
    "monitor_single_cycle e (m, d) = Inr (r, m1, d1)"
    "group_view g (ma, da, aa) = group_view g (m, d, [])"
    "group_view g (m1, d1, r_activities r) = group_view g (monitor_group e g (ma, da, aa))"
    by (metis prod_cases3)
  from c(2) assms(3) have "map_of (active_deliveries ma) g = Some dl" by simp
  from local_complete [OF env(4) assms(2) this assms(4,5), of da aa] obtain lg where
    "group_view g (monitor_group e g (ma, da, aa)) =
       (Some cur, None, group_acts g aa @ [Delivery_completed g (d_coffee_type dl) (d_id dl)],
        group_logs g (logs da) @ [lg])"
    by blast
  with c show ?thesis by (simp add: cycle_step_def group_acts_Nil)
qed

subsection \<open>The states a monitor reaches\<close>

text \<open>
  Whatever the machine and the repository do, every cycle keeps the two dicts in agreement,
  and they agree in a new monitor. So in every state reached from a new monitor, a group
  that was not active at its last stored snapshot has no open delivery.
\<close>

lemma monitor_group_own_consistent:
  assumes "(map_of (active_deliveries m) g \<noteq> None) = was_active m g"
    and "monitor_group e g (m, d, acts) = (m1, d1, acts1)"
  shows "(map_of (active_deliveries m1) g \<noteq> None) = was_active m1 g"
proof (cases "get_group_selection e g")
  case (Inl x)
  from local_raise [OF this, of m d acts] assms show ?thesis by (simp add: was_active_def)
next
  case (Inr res)
  show ?thesis
  proof (cases res)
    case None
    with Inr have "get_group_selection e g = Inr None" by simp
    from local_none [OF this, of "(m, d, acts)"] assms show ?thesis by (simp add: was_active_def)
  next
    case (Some cur)
    with Inr have sel: "get_group_selection e g = Inr (Some cur)" by simp
    from active_coffee_type [of cur] have ct:
      "is_delivery_active cur \<Longrightarrow> \<exists>ct. get_coffee_type_from_status cur = Some ct \<and> ct \<noteq> []" .
    show ?thesis
      using assms sel ct
      by (auto simp add: monitor_group_def try_group_def start_phase_def completion_phase_def
          detect_button_press_def was_active_def update_conv' delete_conv'
          split: option.splits sum.splits prod.splits if_splits)
  qed
qed

lemma monitor_group_consistent:
  assumes "tracking_consistent m" and "monitor_group e g' (m, d, acts) = (m1, d1, acts1)"
  shows "tracking_consistent m1"
  unfolding tracking_consistent_def
proof
  fix g
  show "(map_of (active_deliveries m1) g \<noteq> None) = was_active m1 g"
  proof (cases "g = g'")
    case True
    from assms(1) have "(map_of (active_deliveries m) g \<noteq> None) = was_active m g"
      by (simp add: tracking_consistent_def)
    from monitor_group_own_consistent [OF this] assms(2) True show ?thesis by blast
  next
    case False
    from monitor_group_frame [OF False, of e "(m, d, acts)"] assms(2)
    have "previous_states m1 g = previous_states m g"
      "map_of (active_deliveries m1) g = map_of (active_deliveries m) g" by simp_all
    with assms(1) show ?thesis by (simp add: tracking_consistent_def was_active_def)
  qed
qed

lemma monitor_groups_consistent:
  "tracking_consistent m \<Longrightarrow> monitor_groups e gs (m, d, acts) = (m1, d1, acts1) \<Longrightarrow>
   tracking_consistent m1"
proof (induction gs arbitrary: m d acts)
  case Nil
  then show ?case by simp
next
  case (Cons g gs)
  obtain m' d' acts' where step: "monitor_group e g (m, d, acts) = (m', d', acts')"
    by (cases "monitor_group e g (m, d, acts)") auto
  from monitor_group_consistent [OF Cons.prems(1) step] have "tracking_consistent m'" .
  from Cons.IH [OF this] Cons.prems(2) step show ?case by simp
qed

lemma cycle_step_consistent:
  assumes "tracking_consistent m" and "cycle_step e (m, d) = (r, m1, d1)"
  shows "tracking_consistent m1"
  using assms
  by (auto simp add: cycle_step_def monitor_single_cycle_def
      split: sum.splits bool.splits prod.splits dest: monitor_groups_consistent)

lemma run_cycles_consistent:
  "tracking_consistent m \<Longrightarrow> run_cycles es (m, d) = (rs, m1, d1) \<Longrightarrow> tracking_consistent m1"
proof (induction es arbitrary: m d rs)
  case Nil
  then show ?case by simp
next
  case (Cons e es)
  obtain r m' d' where step: "cycle_step e (m, d) = (r, m', d')"
    by (cases "cycle_step e (m, d)") auto
  from cycle_step_consistent [OF Cons.prems(1) step] have "tracking_consistent m'" .
  from Cons.IH [OF this] Cons.prems(2) step show ?case
    by (auto split: prod.splits)
qed

lemma fresh_monitor_consistent: "tracking_consistent (get_button_monitor None)"
  by (simp add: tracking_consistent_def get_button_monitor_def was_active_def)

subsection \<open>A sustained press\<close>

lemma run_cycles_append:
  "run_cycles (xs @ ys) md =
     (case run_cycles xs md of
        (rs, md1) \<Rightarrow> (case run_cycles ys md1 of (rs', md2) \<Rightarrow> (rs @ rs', md2)))"
  by (induction xs arbitrary: md) (auto split: prod.splits)

lemma idle_run:
  assumes "\<forall>e\<in>set es. idle_poll g e"
    and "map_of (active_deliveries m) g = None" and "\<not> was_active m g"
  shows "\<exists>rs m1 d1. run_cycles es (m, d) = (rs, m1, d1)
           \<and> group_trace g rs = replicate (length es) (Some [])
           \<and> map_of (active_deliveries m1) g = None \<and> \<not> was_active m1 g"
  using assms
proof (induction es arbitrary: m d)
  case Nil
  then show ?case by (simp add: group_trace_def)
next
  case (Cons e es)
  from Cons.prems(1) obtain cur where cur: "observes g e = Some cur" "\<not> is_delivery_active cur"
    by (auto simp add: idle_poll_def split: option.splits)
  from cycle_idle [OF cur Cons.prems(2), of d] obtain r m1 d1 where step:
    "cycle_step e (m, d) = (Inr r, m1, d1)" "group_acts g (r_activities r) = []"
    "previous_states m1 g = Some cur" "map_of (active_deliveries m1) g = None"
    by blast
  from step(3) cur(2) have "\<not> was_active m1 g" by (simp add: was_active_def)
  with Cons.IH [of m1 d1] Cons.prems(1) step(4) obtain rs m2 d2 where rest:
    "run_cycles es (m1, d1) = (rs, m2, d2)"
    "group_trace g rs = replicate (length es) (Some [])"
    "map_of (active_deliveries m2) g = None" "\<not> was_active m2 g"
    by auto
  show ?case
    using step(1,2) rest by (simp add: group_trace_def group_step_def)
qed

lemma held_run:
  assumes "\<forall>e\<in>set es. active_poll g e"
    and "map_of (active_deliveries m) g = Some dl" and "was_active m g"
  shows "\<exists>rs m1 d1. run_cycles es (m, d) = (rs, m1, d1)
           \<and> group_trace g rs = replicate (length es) (Some [])
           \<and> map_of (active_deliveries m1) g = Some dl \<and> was_active m1 g"
  using assms
proof (induction es arbitrary: m d)
  case Nil
  then show ?case by (simp add: group_trace_def)
next
  case (Cons e es)
  from Cons.prems(1) obtain cur where cur: "observes g e = Some cur" "is_delivery_active cur"
    by (auto simp add: active_poll_def split: option.splits)
  from cycle_hold [OF cur Cons.prems(3), of d] Cons.prems(2) obtain r m1 d1 where step:
    "cycle_step e (m, d) = (Inr r, m1, d1)" "group_acts g (r_activities r) = []"
    "previous_states m1 g = Some cur" "map_of (active_deliveries m1) g = Some dl"
    by auto
  from step(3) cur(2) have "was_active m1 g" by (simp add: was_active_def)
  with Cons.IH [of m1 d1] Cons.prems(1) step(4) obtain rs m2 d2 where rest:
    "run_cycles es (m1, d1) = (rs, m2, d2)"
    "group_trace g rs = replicate (length es) (Some [])"
    "map_of (active_deliveries m2) g = Some dl" "was_active m2 g"
    by auto
  show ?case
    using step(1,2) rest by (simp add: group_trace_def group_step_def)
qed

text \<open>
  C1, as stated, fails. Group 1 is read with no flag set, then with the single_short flag
  set at two polls, then with no flag set, from a new monitor. The delivery row is written
  at each of the two active polls, but the write of the log row fails, so the previous
  snapshot is not stored and the press is detected again: the cycles report an error
  activity at each active poll and no delivery_started and no delivery_completed at all,
  and two delivery rows have been created.
\<close>

theorem sustained_press_counterexample:
  "idle_poll 1 (test_env True all_idle)
   \<and> active_poll 1 log_locked_env
   \<and> map_of (active_deliveries fresh_monitor) 1 = None
   \<and> \<not> was_active fresh_monitor 1
   \<and> group_trace 1
       (fst (run_cycles
          [test_env True all_idle, log_locked_env, log_locked_env, test_env True all_idle]
          (fresh_monitor, empty_db))) =
     [Some [], Some [Error_activity 1 ''log table is locked''],
      Some [Error_activity 1 ''log table is locked''], Some []]
   \<and> next_id (snd (snd (run_cycles
          [test_env True all_idle, log_locked_env, log_locked_env, test_env True all_idle]
          (fresh_monitor, empty_db)))) = 2"
  by (simp add: cycle_defs idle_poll_def active_poll_def observes_def was_active_def
      log_locked_env_def test_env_def all_idle_def short_on_one_def short_pressed_def
      no_flags_def fresh_monitor_def empty_db_def group_trace_def group_step_def group_acts_def)

text \<open>
  C1, amended. Take a group that is not tracked and was not active, and polls that read its
  status: polls with no flag set, then a press held over one or more polls with some flag
  set, then a release and further polls with no flag set. When the writes for the group
  succeed at the first active poll and at the release, the cycles report for the group
  exactly one delivery_started, at the first active poll and with the coffee type resolved
  there, exactly one delivery_completed for the same delivery, at the release, and nothing
  at any other poll.
\<close>

theorem sustained_press:
  assumes before: "\<forall>e\<in>set before. idle_poll g e"
    and press: "active_poll g press" "writes_succeed_for g press"
    and held: "\<forall>e\<in>set held. active_poll g e"
    and release: "idle_poll g release" "writes_succeed_for g release"
    and after: "\<forall>e\<in>set after. idle_poll g e"
    and init: "map_of (active_deliveries m) g = None" "\<not> was_active m g"
  shows "\<exists>cur ct i.
           observes g press = Some cur \<and> get_coffee_type_from_status cur = Some ct
           \<and> group_trace g (fst (run_cycles (before @ press # held @ release # after) (m, d))) =
               replicate (length before) (Some [])
               @ Some [Delivery_started g ct i] # replicate (length held) (Some [])
               @ Some [Delivery_completed g ct i] # replicate (length after) (Some [])"
proof -
  from idle_run [OF before init, of d] obtain rs0 m0 d0 where r0:
    "run_cycles before (m, d) = (rs0, m0, d0)"
    "group_trace g rs0 = replicate (length before) (Some [])"
    "map_of (active_deliveries m0) g = None" "\<not> was_active m0 g"
    by blast
  from press(1) obtain cur where cur: "observes g press = Some cur" "is_delivery_active cur"
    by (auto simp add: active_poll_def split: option.splits)
  from active_coffee_type [OF cur(2)] obtain ct where
    ct: "get_coffee_type_from_status cur = Some ct" by blast
  from cycle_start [OF cur r0(4) press(2) ct, of d0] obtain r1 m1 d1 dl where r1:
    "cycle_step press (m0, d0) = (Inr r1, m1, d1)"
    "group_acts g (r_activities r1) = [Delivery_started g ct (d_id dl)]"
    "previous_states m1 g = Some cur" "map_of (active_deliveries m1) g = Some dl"
    "d_group_number dl = g" "d_coffee_type dl = ct"
    by blast
  from r1(3) cur(2) have wa: "was_active m1 g" by (simp add: was_active_def)
  from held_run [OF held r1(4) wa, of d1] obtain rs2 m2 d2 where r2:
    "run_cycles held (m1, d1) = (rs2, m2, d2)"
    "group_trace g rs2 = replicate (length held) (Some [])"
    "map_of (active_deliveries m2) g = Some dl"
    by blast
  from release(1) obtain cur' where cur': "observes g release = Some cur'"
    "\<not> is_delivery_active cur'"
    by (auto simp add: idle_poll_def split: option.splits)
  from cycle_complete [OF cur' r2(3) r1(5) release(2), of d2] obtain r3 m3 d3 where r3:
    "cycle_step release (m2, d2) = (Inr r3, m3, d3)"
    "group_acts g (r_activities r3) = [Delivery_completed g ct (d_id dl)]"
    "previous_states m3 g = Some cur'" "map_of (active_deliveries m3) g = None"
    using r1(6) by auto
  from r3(3) cur'(2) have nwa: "\<not> was_active m3 g" by (simp add: was_active_def)
  from idle_run [OF after r3(4) nwa, of d3] obtain rs4 m4 d4 where r4:
    "run_cycles after (m3, d3) = (rs4, m4, d4)"
    "group_trace g rs4 = replicate (length after) (Some [])"
    by blast
  have "fst (run_cycles (before @ press # held @ release # after) (m, d)) =
          rs0 @ Inr r1 # rs2 @ Inr r3 # rs4"
    using r0(1) r1(1) r2(1) r3(1) r4(1) by (simp add: run_cycles_append)
  then have "group_trace g (fst (run_cycles (before @ press # held @ release # after) (m, d))) =
               replicate (length before) (Some [])
               @ Some [Delivery_started g ct (d_id dl)] # replicate (length held) (Some [])
               @ Some [Delivery_completed g ct (d_id dl)] # replicate (length after) (Some [])"
    using r0(2) r1(2) r2(2) r3(2) r4(2)
    by (simp add: group_trace_def group_step_def)
  with cur(1) ct show ?thesis by blast
qed

lemma scenario_run:
  "group_trace 1
     (fst (run_cycles
        [test_env True all_idle, test_env True short_on_one, test_env True short_on_one,
         test_env True all_idle]
        (fresh_monitor, empty_db))) =
   [Some [], Some [Delivery_started 1 ''single_short'' 0], Some [],
    Some [Delivery_completed 1 ''single_short'' 0]]"
  by (simp add: cycle_defs test_env_def all_idle_def short_on_one_def short_pressed_def
      no_flags_def fresh_monitor_def empty_db_def group_trace_def group_step_def group_acts_def)

theorem sustained_press_witness:
  "idle_poll 1 (test_env True all_idle)
   \<and> active_poll 1 (test_env True short_on_one)
   \<and> writes_succeed_for 1 (test_env True short_on_one)
   \<and> writes_succeed_for 1 (test_env True all_idle)
   \<and> map_of (active_deliveries fresh_monitor) 1 = None
   \<and> \<not> was_active fresh_monitor 1
   \<and> group_trace 1
       (fst (run_cycles
          [test_env True all_idle, test_env True short_on_one, test_env True short_on_one,
           test_env True all_idle]
          (fresh_monitor, empty_db))) =
     [Some [], Some [Delivery_started 1 ''single_short'' 0], Some [],
      Some [Delivery_completed 1 ''single_short'' 0]]"
  using sustained_press [of "[test_env True all_idle]" 1 "test_env True short_on_one"
      "[test_env True short_on_one]" "test_env True all_idle" "[]" fresh_monitor empty_db]
    scenario_run
  by (simp add: idle_poll_def active_poll_def observes_def writes_succeed_for_def was_active_def
      test_env_def all_idle_def short_on_one_def short_pressed_def no_flags_def
      fresh_monitor_def group_range_two is_delivery_active_def)

subsection \<open>A completion that is not tracked\<close>

text \<open>
  C4, as stated, fails. In the first state group 1 was active at the previous poll, has no
  open delivery and is read with no flag set: the cycle returns no activity and writes no
  log row. In the run from a new monitor, the press of group 1 is seen at the first poll
  but its delivery cannot be written, so the group stays untracked; at the second poll the
  group is read with no flag set, and again nothing is reported for it and no log row is
  written.
\<close>

theorem untracked_completion_counterexample:
  "was_active untracked_monitor 1
   \<and> map_of (active_deliveries untracked_monitor) 1 = None
   \<and> get_group_selection (test_env True all_idle) 1 = Inr (Some no_flags)
   \<and> monitor_single_cycle (test_env True all_idle) (untracked_monitor, empty_db) =
       Inr (\<lparr>r_status = ''active'', r_timestamp = Some 100, r_activities = [],
             r_active_deliveries = Some 0\<rparr>,
            \<lparr>previous_states = [1 \<mapsto> no_flags, 2 \<mapsto> no_flags], active_deliveries = []\<rparr>,
            empty_db)
   \<and> group_trace 1 (fst (run_cycles [locked_db_env, test_env True all_idle]
         (fresh_monitor, empty_db))) =
       [Some [Error_activity 1 ''database is locked''], Some []]
   \<and> logs (snd (snd (run_cycles [locked_db_env, test_env True all_idle]
         (fresh_monitor, empty_db)))) = []"
  by (simp add: cycle_defs was_active_def untracked_monitor_def locked_db_env_def test_env_def
      all_idle_def short_on_one_def short_pressed_def no_flags_def fresh_monitor_def
      empty_db_def group_trace_def group_step_def group_acts_def)

text \<open>
  C4, amended. When a group with no tracked open delivery is read with no flag set, the
  cycle returns normally and records nothing for the group: no activity and no log row;
  it stores the snapshot as the previous one and the group stays untracked.
\<close>

theorem untracked_completion_silent:
  assumes "observes g e = Some cur" and "\<not> is_delivery_active cur"
    and "map_of (active_deliveries m) g = None"
  shows "\<exists>r m1 d1. monitor_single_cycle e (m, d) = Inr (r, m1, d1)
           \<and> group_acts g (r_activities r) = []
           \<and> group_logs g (logs d1) = group_logs g (logs d)
           \<and> previous_states m1 g = Some cur
           \<and> map_of (active_deliveries m1) g = None"
proof -
  from cycle_idle [OF assms, of d] obtain r m1 d1 where
    "cycle_step e (m, d) = (Inr r, m1, d1)" "group_acts g (r_activities r) = []"
    "previous_states m1 g = Some cur" "map_of (active_deliveries m1) g = None"
    "group_logs g (logs d1) = group_logs g (logs d)"
    by blast
  then show ?thesis
    by (auto simp add: cycle_step_def split: sum.splits)
qed

theorem untracked_completion_silent_witness:
  "observes 1 (test_env True all_idle) = Some no_flags
   \<and> \<not> is_delivery_active no_flags
   \<and> was_active untracked_monitor 1
   \<and> map_of (active_deliveries untracked_monitor) 1 = None
   \<and> monitor_single_cycle (test_env True all_idle) (untracked_monitor, empty_db) =
       Inr (\<lparr>r_status = ''active'', r_timestamp = Some 100, r_activities = [],
             r_active_deliveries = Some 0\<rparr>,
            \<lparr>previous_states = [1 \<mapsto> no_flags, 2 \<mapsto> no_flags], active_deliveries = []\<rparr>,
            empty_db)"
  using untracked_completion_silent [of 1 "test_env True all_idle" no_flags untracked_monitor
      empty_db]
  by (simp add: cycle_defs observes_def was_active_def untracked_monitor_def test_env_def
      all_idle_def short_pressed_def no_flags_def empty_db_def)

subsection \<open>A group whose status cannot be read\<close>

lemma group_range_bounded: "set (group_range n) \<subseteq> {1..4}"
  by (auto simp add: group_range_def Let_def split: option.splits)

text \<open>
  C6, as stated, fails for a fetch that returns no snapshot: group 1 returns none, and
  the cycle has no error activity for it; group 2 is processed.
\<close>

theorem fetch_none_counterexample:
  "get_group_selection (test_env True none_on_one) 1 = Inr None
   \<and> group_range (Some 2) = [1, 2]
   \<and> cycle_activities (test_env True none_on_one) (fresh_monitor, empty_db) =
       Some [Delivery_started 2 ''single_short'' 0]"
  by (simp add: cycle_activities_def cycle_defs test_env_def none_on_one_def short_pressed_def
      no_flags_def fresh_monitor_def empty_db_def)

text \<open>
  C6, amended. In a connected cycle every enumerated group is reached, whatever happens
  at the other groups. When the fetch of the group raises, its only activity is an error
  activity with the description of the exception; when the fetch returns no snapshot the
  group is skipped with no activity; in both cases its previous snapshot and its open
  delivery stay as they were. When the fetch returns a snapshot and the writes for the
  group succeed, the snapshot is stored as the previous one.
\<close>

theorem fetch_failure_isolated:
  assumes "ensure_connection e = Inr True" and "get_number_of_groups e = Inr n"
    and "g \<in> set (group_range n)"
  shows "\<exists>r m1 d1. monitor_single_cycle e (m, d) = Inr (r, m1, d1) \<and> r_status r = ''active''
           \<and> (case get_group_selection e g of
                 Inl x \<Rightarrow>
                   group_acts g (r_activities r) = [Error_activity g (str_exn x)]
                   \<and> previous_states m1 g = previous_states m g
                   \<and> map_of (active_deliveries m1) g = map_of (active_deliveries m) g
               | Inr None \<Rightarrow>
                   group_acts g (r_activities r) = []
                   \<and> previous_states m1 g = previous_states m g
                   \<and> map_of (active_deliveries m1) g = map_of (active_deliveries m) g
               | Inr (Some cur) \<Rightarrow>
                   (writes_succeed_for g e \<and> tracked_under_own_group m g \<longrightarrow>
                    previous_states m1 g = Some cur))"
proof -
  from cycle_view [OF assms, of m d] obtain r m1 d1 ma da aa where c:
    "monitor_single_cycle e (m, d) = Inr (r, m1, d1)" "r_status r = ''active''"
    "group_view g (ma, da, aa) = group_view g (m, d, [])"
    "group_view g (m1, d1, r_activities r) = group_view g (monitor_group e g (ma, da, aa))"
    by (metis prod_cases3)
  have "case get_group_selection e g of
          Inl x \<Rightarrow>
            group_acts g (r_activities r) = [Error_activity g (str_exn x)]
            \<and> previous_states m1 g = previous_states m g
            \<and> map_of (active_deliveries m1) g = map_of (active_deliveries m) g
        | Inr None \<Rightarrow>
            group_acts g (r_activities r) = []
            \<and> previous_states m1 g = previous_states m g
            \<and> map_of (active_deliveries m1) g = map_of (active_deliveries m) g
        | Inr (Some cur) \<Rightarrow>
            (writes_succeed_for g e \<and> tracked_under_own_group m g \<longrightarrow>
             previous_states m1 g = Some cur)"
  proof (cases "get_group_selection e g")
    case (Inl x)
    from local_raise [OF this, of ma da aa] c(3,4) Inl show ?thesis
      by (simp add: group_acts_def)
  next
    case (Inr res)
    show ?thesis
    proof (cases res)
      case None
      with Inr have "get_group_selection e g = Inr None" by simp
      from local_none [OF this, of "(ma, da, aa)"] c(3,4) Inr None show ?thesis
        by (simp add: group_acts_def)
    next
      case (Some cur)
      with Inr have sel: "get_group_selection e g = Inr (Some cur)" by simp
      have "previous_states m1 g = Some cur"
        if "writes_succeed_for g e" and "tracked_under_own_group m g"
      proof -
        from that(2) c(3) have "tracked_under_own_group ma g"
          by (simp add: tracked_under_own_group_def)
        from local_processed [OF sel that(1) this, of da aa] c(4) show ?thesis
          by (metis fst_conv group_view.simps)
      qed
      with sel show ?thesis by simp
    qed
  qed
  with c(1,2) show ?thesis by blast
qed

theorem fetch_failure_isolated_witness:
  "ensure_connection (test_env True raise_on_one) = Inr True
   \<and> get_number_of_groups (test_env True raise_on_one) = Inr (Some 2)
   \<and> group_range (Some 2) = [1, 2]
   \<and> get_group_selection (test_env True raise_on_one) 1 = Inl (DriverError ''read timeout'')
   \<and> get_group_selection (test_env True raise_on_one) 2 = Inr (Some short_pressed)
   \<and> writes_succeed_for 2 (test_env True raise_on_one)
   \<and> tracked_under_own_group fresh_monitor 2
   \<and> cycle_activities (test_env True raise_on_one) (fresh_monitor, empty_db) =
       Some [Error_activity 1 ''read timeout'', Delivery_started 2 ''single_short'' 0]
   \<and> get_group_selection (test_env True none_on_one) 1 = Inr None
   \<and> cycle_activities (test_env True none_on_one) (fresh_monitor, empty_db) =
       Some [Delivery_started 2 ''single_short'' 0]"
  using fetch_failure_isolated [of "test_env True raise_on_one" "Some 2" 1 fresh_monitor empty_db]
    fetch_failure_isolated [of "test_env True raise_on_one" "Some 2" 2 fresh_monitor empty_db]
    fetch_failure_isolated [of "test_env True none_on_one" "Some 2" 1 fresh_monitor empty_db]
  by (simp add: cycle_activities_def cycle_defs test_env_def none_on_one_def raise_on_one_def
      short_pressed_def no_flags_def fresh_monitor_def empty_db_def writes_succeed_for_def
      tracked_under_own_group_def)

subsection \<open>A repository write that fails\<close>

text \<open>
  C5, as stated, fails: with every delivery write failing, the cycle returns normally
  with an error activity for the pressed group, and the delivery task returns false.
\<close>

theorem write_failure_counterexample:
  "delivery_write_fault locked_db_env
     \<lparr>d_id = 0, d_coffee_type = ''single_short'', d_group_number = 1,
      d_status = ''in_progress'', d_trigger_type = Some ''manual'', d_started_at = Some 100,
      d_completed_at = None, d_error_message = None\<rparr>
     = Some (PersistenceError ''database is locked'')
   \<and> monitor_single_cycle locked_db_env (fresh_monitor, empty_db) =
       Inr (\<lparr>r_status = ''active'', r_timestamp = Some 100,
             r_activities = [Error_activity 1 ''database is locked''],
             r_active_deliveries = Some 0\<rparr>,
            \<lparr>previous_states = [2 \<mapsto> no_flags], active_deliveries = []\<rparr>, empty_db)
   \<and> deliver_coffee_async locked_db_env request_db 7 =
       (Inr False, request_db, [(2, ''double_long'')])"
  by (simp add: cycle_defs locked_db_env_def test_env_def short_on_one_def short_pressed_def
      no_flags_def fresh_monitor_def empty_db_def deliver_coffee_async_def
      deliver_coffee_body_def objects_get_def request_db_def pending_delivery_def)

lemma write_failure_caught:
  "(ensure_connection e = Inr True \<and> get_number_of_groups e = Inr n \<longrightarrow>
      (\<exists>r m1 d1. monitor_single_cycle e (m, d) = Inr (r, m1, d1)))
   \<and> (observes g e = Some cur
        \<and> (\<forall>row. d_group_number row = g \<longrightarrow> delivery_write_fault e row = Some x)
        \<and> (is_delivery_active cur \<and> \<not> was_active m g
            \<or> \<not> is_delivery_active cur
               \<and> (\<exists>dl. map_of (active_deliveries m) g = Some dl \<and> d_group_number dl = g)) \<longrightarrow>
      (\<exists>r m1 d1. monitor_single_cycle e (m, d) = Inr (r, m1, d1)
         \<and> group_acts g (r_activities r) = [Error_activity g (str_exn x)]
         \<and> previous_states m1 g = previous_states m g))
   \<and> (observes g e = Some cur
        \<and> (\<forall>row. d_group_number row = g \<longrightarrow> delivery_write_fault e row = None)
        \<and> (\<forall>row. log_group_number row = Some g \<longrightarrow> log_write_fault e row = Some y)
        \<and> (is_delivery_active cur \<and> \<not> was_active m g
            \<or> \<not> is_delivery_active cur
               \<and> (\<exists>dl. map_of (active_deliveries m) g = Some dl \<and> d_group_number dl = g)) \<longrightarrow>
      (\<exists>r m1 d1. monitor_single_cycle e (m, d) = Inr (r, m1, d1)
         \<and> group_acts g (r_activities r) = [Error_activity g (str_exn y)]
         \<and> previous_states m1 g = previous_states m g))
   \<and> ((\<forall>row. delivery_write_fault e row = Some x) \<longrightarrow>
      (\<exists>cmds. deliver_coffee_async e rows i = (Inr False, rows, cmds)))"
proof (intro conjI impI)
  assume "ensure_connection e = Inr True \<and> get_number_of_groups e = Inr n"
  then show "\<exists>r m1 d1. monitor_single_cycle e (m, d) = Inr (r, m1, d1)"
    by (simp add: monitor_single_cycle_def split: prod.splits)
next
  assume a: "observes g e = Some cur
        \<and> (\<forall>row. d_group_number row = g \<longrightarrow> delivery_write_fault e row = Some x)
        \<and> (is_delivery_active cur \<and> \<not> was_active m g
            \<or> \<not> is_delivery_active cur
               \<and> (\<exists>dl. map_of (active_deliveries m) g = Some dl \<and> d_group_number dl = g))"
  then have obs: "observes g e = Some cur"
    and fault: "\<forall>row. d_group_number row = g \<longrightarrow> delivery_write_fault e row = Some x"
    by simp_all
  from observesD [OF obs] obtain n where env:
    "ensure_connection e = Inr True" "get_number_of_groups e = Inr n"
    "g \<in> set (group_range n)" "get_group_selection e g = Inr (Some cur)" by blast
  from cycle_view [OF env(1,2,3), of m d] obtain r m1 d1 ma da aa where c:
    "monitor_single_cycle e (m, d) = Inr (r, m1, d1)"
    "group_view g (ma, da, aa) = group_view g (m, d, [])"
    "group_view g (m1, d1, r_activities r) = group_view g (monitor_group e g (ma, da, aa))"
    by (metis prod_cases3)
  from a consider
    (start) "is_delivery_active cur" "\<not> was_active m g"
    | (completion) dl where "\<not> is_delivery_active cur"
        "map_of (active_deliveries m) g = Some dl" "d_group_number dl = g"
    by blast
  then have "group_acts g (r_activities r) = [Error_activity g (str_exn x)]
             \<and> previous_states m1 g = previous_states m g"
  proof cases
    case start
    from start(2) c(2) have "\<not> was_active ma g" by (simp add: was_active_def)
    from local_start_fault [OF env(4) start(1) this fault, of da aa] c(2,3)
    show ?thesis by (simp add: group_acts_def)
  next
    case completion
    from completion(2) c(2) have "map_of (active_deliveries ma) g = Some dl" by simp
    from local_complete_fault [OF env(4) completion(1) this completion(3) fault, of da aa] c(2,3)
    show ?thesis by (simp add: group_acts_def)
  qed
  with c(1) show "\<exists>r m1 d1. monitor_single_cycle e (m, d) = Inr (r, m1, d1)
         \<and> group_acts g (r_activities r) = [Error_activity g (str_exn x)]
         \<and> previous_states m1 g = previous_states m g"
    by blast
next
  assume a: "observes g e = Some cur
        \<and> (\<forall>row. d_group_number row = g \<longrightarrow> delivery_write_fault e row = None)
        \<and> (\<forall>row. log_group_number row = Some g \<longrightarrow> log_write_fault e row = Some y)
        \<and> (is_delivery_active cur \<and> \<not> was_active m g
            \<or> \<not> is_delivery_active cur
               \<and> (\<exists>dl. map_of (active_deliveries m) g = Some dl \<and> d_group_number dl = g))"
  then have obs: "observes g e = Some cur"
    and ok: "\<forall>row. d_group_number row = g \<longrightarrow> delivery_write_fault e row = None"
    and fault: "\<forall>row. log_group_number row = Some g \<longrightarrow> log_write_fault e row = Some y"
    by simp_all
  from observesD [OF obs] obtain n where env:
    "ensure_connection e = Inr True" "get_number_of_groups e = Inr n"
    "g \<in> set (group_range n)" "get_group_selection e g = Inr (Some cur)" by blast
  from cycle_view [OF env(1,2,3), of m d] obtain r m1 d1 ma da aa where c:
    "monitor_single_cycle e (m, d) = Inr (r, m1, d1)"
    "group_view g (ma, da, aa) = group_view g (m, d, [])"
    "group_view g (m1, d1, r_activities r) = group_view g (monitor_group e g (ma, da, aa))"
    by (metis prod_cases3)
  from a consider
    (start) "is_delivery_active cur" "\<not> was_active m g"
    | (completion) dl where "\<not> is_delivery_active cur"
        "map_of (active_deliveries m) g = Some dl" "d_group_number dl = g"
    by blast
  then have "group_acts g (r_activities r) = [Error_activity g (str_exn y)]
             \<and> previous_states m1 g = previous_states m g"
  proof cases
    case start
    from start(2) c(2) have "\<not> was_active ma g" by (simp add: was_active_def)
    from local_start_log_fault [OF env(4) start(1) this ok fault, of da aa] c(2,3)
    show ?thesis by (auto simp add: group_acts_def)
  next
    case completion
    from completion(2) c(2) have "map_of (active_deliveries ma) g = Some dl" by simp
    from local_complete_log_fault [OF env(4) completion(1) this completion(3) ok fault, of da aa]
      c(2,3)
    show ?thesis by (auto simp add: group_acts_def)
  qed
  with c(1) show "\<exists>r m1 d1. monitor_single_cycle e (m, d) = Inr (r, m1, d1)
         \<and> group_acts g (r_activities r) = [Error_activity g (str_exn y)]
         \<and> previous_states m1 g = previous_states m g"
    by blast
next
  assume "\<forall>row. delivery_write_fault e row = Some x"
  then show "\<exists>cmds. deliver_coffee_async e rows i = (Inr False, rows, cmds)"
    by (auto simp add: deliver_coffee_async_def deliver_coffee_body_def objects_get_def save_def
        Let_def split: sum.splits option.splits bool.splits)
qed

lemma executor_write_failure:
  assumes "deliveries rows i = Some dl"
  shows "(ensure_connection e = Inr False
          \<and> delivery_write_fault e (failed_with dl ''Failed to connect to machine'') = Some x \<longrightarrow>
          deliver_coffee_async e rows i = (Inr False, recorded_failure e rows i x, []))
       \<and> (ensure_connection e = Inr True
          \<and> deliver_coffee e (d_group_number dl) (d_coffee_type dl) = Inr res \<and> \<not> success res
          \<and> delivery_write_fault e (failed_with dl (message res)) = Some x \<longrightarrow>
          deliver_coffee_async e rows i =
            (Inr False, recorded_failure e rows i x, [(d_group_number dl, d_coffee_type dl)]))
       \<and> (ensure_connection e = Inr True
          \<and> deliver_coffee e (d_group_number dl) (d_coffee_type dl) = Inr res \<and> success res
          \<and> delivery_write_fault e (dl\<lparr>d_status := ''in_progress''\<rparr>) = Some x \<longrightarrow>
          deliver_coffee_async e rows i =
            (Inr False, recorded_failure e rows i x, [(d_group_number dl, d_coffee_type dl)]))
       \<and> (ensure_connection e = Inr True
          \<and> deliver_coffee e (d_group_number dl) (d_coffee_type dl) = Inr res \<and> success res
          \<and> delivery_write_fault e (dl\<lparr>d_status := ''in_progress''\<rparr>) = None
          \<and> wait_until_group_is_free e (d_group_number dl) 120 = Inr freed
          \<and> delivery_write_fault e
               (if freed then dl\<lparr>d_status := ''completed'', d_completed_at := Some (now e)\<rparr>
                else failed_with dl ''Delivery timeout'') = Some x \<longrightarrow>
          deliver_coffee_async e rows i =
            (Inr False,
             recorded_failure e (put_delivery rows (dl\<lparr>d_status := ''in_progress''\<rparr>)) i x,
             [(d_group_number dl, d_coffee_type dl)]))"
proof -
  note defs = deliver_coffee_async_def deliver_coffee_body_def objects_get_def save_def
    put_delivery_def failed_with_def recorded_failure_def
  have a: "ensure_connection e = Inr False
          \<and> delivery_write_fault e (failed_with dl ''Failed to connect to machine'') = Some x \<longrightarrow>
          deliver_coffee_async e rows i = (Inr False, recorded_failure e rows i x, [])"
    using assms by (auto simp add: defs split: option.splits)
  have b: "ensure_connection e = Inr True
          \<and> deliver_coffee e (d_group_number dl) (d_coffee_type dl) = Inr res \<and> \<not> success res
          \<and> delivery_write_fault e (failed_with dl (message res)) = Some x \<longrightarrow>
          deliver_coffee_async e rows i =
            (Inr False, recorded_failure e rows i x, [(d_group_number dl, d_coffee_type dl)])"
    using assms by (auto simp add: defs split: option.splits)
  have c: "ensure_connection e = Inr True
          \<and> deliver_coffee e (d_group_number dl) (d_coffee_type dl) = Inr res \<and> success res
          \<and> delivery_write_fault e (dl\<lparr>d_status := ''in_progress''\<rparr>) = Some x \<longrightarrow>
          deliver_coffee_async e rows i =
            (Inr False, recorded_failure e rows i x, [(d_group_number dl, d_coffee_type dl)])"
    using assms by (auto simp add: defs split: option.splits)
  have d: "ensure_connection e = Inr True
          \<and> deliver_coffee e (d_group_number dl) (d_coffee_type dl) = Inr res \<and> success res
          \<and> delivery_write_fault e (dl\<lparr>d_status := ''in_progress''\<rparr>) = None
          \<and> wait_until_group_is_free e (d_group_number dl) 120 = Inr freed
          \<and> delivery_write_fault e
               (if freed then dl\<lparr>d_status := ''completed'', d_completed_at := Some (now e)\<rparr>
                else failed_with dl ''Delivery timeout'') = Some x \<longrightarrow>
          deliver_coffee_async e rows i =
            (Inr False,
             recorded_failure e (put_delivery rows (dl\<lparr>d_status := ''in_progress''\<rparr>)) i x,
             [(d_group_number dl, d_coffee_type dl)])"
    using assms by (cases freed) (auto simp add: defs split: option.splits)
  from a b c d show ?thesis by blast
qed

lemma final_write_locked_run:
  "deliver_coffee_async final_write_locked_env request_db 7 =
     (Inr False,
      put_delivery request_db
        (failed_with (pending_delivery\<lparr>d_status := ''in_progress''\<rparr>) ''database is locked''),
      [(2, ''double_long'')])"
  by (simp add: deliver_coffee_async_def deliver_coffee_body_def objects_get_def save_def
      put_delivery_def failed_with_def final_write_locked_env_def test_env_def request_db_def
      pending_delivery_def)

text \<open>
  C5, amended. A connected cycle returns normally whatever writes fail. When a start or a
  completion of a group is to be recorded and the writes of the delivery rows of the group
  fail, or they succeed and the writes of its log rows fail, the only activity of the
  group is an error activity with the description of the failure, and its previous
  snapshot stays as it was. In the delivery task, a failure of any of its writes (the row
  marked failed without connection or after a rejection, the row marked in_progress, the
  row marked completed or timed out) is caught: the task returns false, and the handler
  has tried to record the failure on the stored row. When every delivery write fails,
  the task returns false and leaves the repository as it was.
\<close>

theorem write_failure_contained:
  "(ensure_connection e = Inr True \<and> get_number_of_groups e = Inr n \<longrightarrow>
      (\<exists>r m1 d1. monitor_single_cycle e (m, d) = Inr (r, m1, d1)))
   \<and> (observes g e = Some cur
        \<and> (\<forall>row. d_group_number row = g \<longrightarrow> delivery_write_fault e row = Some x)
        \<and> (is_delivery_active cur \<and> \<not> was_active m g
            \<or> \<not> is_delivery_active cur
               \<and> (\<exists>dl. map_of (active_deliveries m) g = Some dl \<and> d_group_number dl = g)) \<longrightarrow>
      (\<exists>r m1 d1. monitor_single_cycle e (m, d) = Inr (r, m1, d1)
         \<and> group_acts g (r_activities r) = [Error_activity g (str_exn x)]
         \<and> previous_states m1 g = previous_states m g))
   \<and> (observes g e = Some cur
        \<and> (\<forall>row. d_group_number row = g \<longrightarrow> delivery_write_fault e row = None)
        \<and> (\<forall>row. log_group_number row = Some g \<longrightarrow> log_write_fault e row = Some y)
        \<and> (is_delivery_active cur \<and> \<not> was_active m g
            \<or> \<not> is_delivery_active cur
               \<and> (\<exists>dl. map_of (active_deliveries m) g = Some dl \<and> d_group_number dl = g)) \<longrightarrow>
      (\<exists>r m1 d1. monitor_single_cycle e (m, d) = Inr (r, m1, d1)
         \<and> group_acts g (r_activities r) = [Error_activity g (str_exn y)]
         \<and> previous_states m1 g = previous_states m g))
   \<and> ((\<forall>row. delivery_write_fault e row = Some x) \<longrightarrow>
      (\<exists>cmds. deliver_coffee_async e rows i = (Inr False, rows, cmds)))
   \<and> (deliveries rows i = Some dl \<longrightarrow>
       (ensure_connection e = Inr False
              \<and> delivery_write_fault e (failed_with dl ''Failed to connect to machine'') = Some x \<longrightarrow>
              deliver_coffee_async e rows i = (Inr False, recorded_failure e rows i x, []))
           \<and> (ensure_connection e = Inr True
              \<and> deliver_coffee e (d_group_number dl) (d_coffee_type dl) = Inr res \<and> \<not> success res
              \<and> delivery_write_fault e (failed_with dl (message res)) = Some x \<longrightarrow>
              deliver_coffee_async e rows i =
                (Inr False, recorded_failure e rows i x, [(d_group_number dl, d_coffee_type dl)]))
           \<and> (ensure_connection e = Inr True
              \<and> deliver_coffee e (d_group_number dl) (d_coffee_type dl) = Inr res \<and> success res
              \<and> delivery_write_fault e (dl\<lparr>d_status := ''in_progress''\<rparr>) = Some x \<longrightarrow>
              deliver_coffee_async e rows i =
                (Inr False, recorded_failure e rows i x, [(d_group_number dl, d_coffee_type dl)]))
           \<and> (ensure_connection e = Inr True
              \<and> deliver_coffee e (d_group_number dl) (d_coffee_type dl) = Inr res \<and> success res
              \<and> delivery_write_fault e (dl\<lparr>d_status := ''in_progress''\<rparr>) = None
              \<and> wait_until_group_is_free e (d_group_number dl) 120 = Inr freed
              \<and> delivery_write_fault e
                   (if freed then dl\<lparr>d_status := ''completed'', d_completed_at := Some (now e)\<rparr>
                    else failed_with dl ''Delivery timeout'') = Some x \<longrightarrow>
              deliver_coffee_async e rows i =
                (Inr False,
                 recorded_failure e (put_delivery rows (dl\<lparr>d_status := ''in_progress''\<rparr>)) i x,
                 [(d_group_number dl, d_coffee_type dl)])))"
  (is "?A \<and> ?B \<and> ?C \<and> ?D \<and> ?E")
proof -
  have "?A \<and> ?B \<and> ?C \<and> ?D"
    by (rule write_failure_caught)
  moreover have "?E"
    by (rule impI, rule executor_write_failure, assumption)
  ultimately show ?thesis
    by simp
qed

theorem write_failure_contained_witness:
  "observes 1 locked_db_env = Some short_pressed
   \<and> observes 1 log_locked_env = Some short_pressed
   \<and> is_delivery_active short_pressed \<and> \<not> was_active fresh_monitor 1
   \<and> monitor_single_cycle locked_db_env (fresh_monitor, empty_db) =
       Inr (\<lparr>r_status = ''active'', r_timestamp = Some 100,
             r_activities = [Error_activity 1 ''database is locked''],
             r_active_deliveries = Some 0\<rparr>,
            \<lparr>previous_states = [2 \<mapsto> no_flags], active_deliveries = []\<rparr>, empty_db)
   \<and> cycle_activities log_locked_env (fresh_monitor, empty_db) =
       Some [Error_activity 1 ''log table is locked'']
   \<and> deliver_coffee_async locked_db_env request_db 7 =
       (Inr False, request_db, [(2, ''double_long'')])
   \<and> delivery_write_fault final_write_locked_env
       (pending_delivery\<lparr>d_status := ''completed'', d_completed_at := Some 100\<rparr>) =
       Some (PersistenceError ''database is locked'')
   \<and> deliver_coffee_async final_write_locked_env request_db 7 =
       (Inr False,
        put_delivery request_db
          (failed_with (pending_delivery\<lparr>d_status := ''in_progress''\<rparr>)
             ''database is locked''),
        [(2, ''double_long'')])"
  using write_failure_contained [of locked_db_env "Some 2" fresh_monitor empty_db 1 short_pressed
      "PersistenceError ''database is locked''" "PersistenceError ''log table is locked''"
      request_db 7]
    write_failure_contained [of log_locked_env "Some 2" fresh_monitor empty_db 1 short_pressed
      "PersistenceError ''database is locked''" "PersistenceError ''log table is locked''"
      request_db 7]
    write_failure_contained [where e = final_write_locked_env and rows = request_db and i = 7
      and dl = pending_delivery and x = "PersistenceError ''database is locked''"
      and res = "\<lparr>success = True, message = ''started''\<rparr>" and freed = True]
    final_write_locked_run
  by (simp add: final_write_locked_env_def put_delivery_def failed_with_def cycle_defs locked_db_env_def log_locked_env_def test_env_def short_on_one_def
      short_pressed_def no_flags_def fresh_monitor_def empty_db_def deliver_coffee_async_def
      deliver_coffee_body_def objects_get_def request_db_def pending_delivery_def
      observes_def was_active_def cycle_activities_def)

subsection \<open>The delivery task\<close>

text \<open>
  C3. For a delivery that is stored under its id, when no write of a delivery row fails:
  without connection the delivery ends failed with the message "Failed to connect to
  machine" and no command is sent; when the driver rejects the command it ends failed
  with the driver's message; when the command is accepted and the wait with the timeout
  of 120 seconds returns false it ends failed with "Delivery timeout"; when the wait
  returns true it ends completed with completed_at set to the current time. Whenever the
  driver calls return normally, the task returns true exactly when the stored status is
  completed.
\<close>

theorem deliver_coffee_async_outcomes:
  assumes "deliveries d i = Some dl" and "d_id dl = i"
    and "\<forall>row. delivery_write_fault e row = None"
  shows "(ensure_connection e = Inr False \<longrightarrow>
            deliver_coffee_async e d i =
              (Inr False, put_delivery d (failed_with dl ''Failed to connect to machine''), []))
       \<and> (ensure_connection e = Inr True
            \<and> deliver_coffee e (d_group_number dl) (d_coffee_type dl) = Inr res
            \<and> \<not> success res \<longrightarrow>
            deliver_coffee_async e d i =
              (Inr False, put_delivery d (failed_with dl (message res)),
               [(d_group_number dl, d_coffee_type dl)]))
       \<and> (ensure_connection e = Inr True
            \<and> deliver_coffee e (d_group_number dl) (d_coffee_type dl) = Inr res
            \<and> success res
            \<and> wait_until_group_is_free e (d_group_number dl) 120 = Inr False \<longrightarrow>
            deliver_coffee_async e d i =
              (Inr False, put_delivery d (failed_with dl ''Delivery timeout''),
               [(d_group_number dl, d_coffee_type dl)]))
       \<and> (ensure_connection e = Inr True
            \<and> deliver_coffee e (d_group_number dl) (d_coffee_type dl) = Inr res
            \<and> success res
            \<and> wait_until_group_is_free e (d_group_number dl) 120 = Inr True \<longrightarrow>
            deliver_coffee_async e d i =
              (Inr True,
               put_delivery d (dl\<lparr>d_status := ''completed'', d_completed_at := Some (now e)\<rparr>),
               [(d_group_number dl, d_coffee_type dl)]))
       \<and> (ensure_connection e = Inr connected
            \<and> (connected \<longrightarrow>
                 deliver_coffee e (d_group_number dl) (d_coffee_type dl) = Inr res
                 \<and> (success res \<longrightarrow>
                      wait_until_group_is_free e (d_group_number dl) 120 = Inr freed)) \<longrightarrow>
            (\<exists>b d1 cmds row.
               deliver_coffee_async e d i = (Inr b, d1, cmds)
               \<and> deliveries d1 i = Some row
               \<and> b = (d_status row = ''completed'')))"
proof -
  note defs = deliver_coffee_async_def deliver_coffee_body_def objects_get_def save_def
    put_delivery_def failed_with_def
  have "ensure_connection e = Inr connected
        \<and> (connected \<longrightarrow>
             deliver_coffee e (d_group_number dl) (d_coffee_type dl) = Inr res
             \<and> (success res \<longrightarrow>
                  wait_until_group_is_free e (d_group_number dl) 120 = Inr freed)) \<longrightarrow>
        (\<exists>b d1 cmds row.
           deliver_coffee_async e d i = (Inr b, d1, cmds)
           \<and> deliveries d1 i = Some row
           \<and> b = (d_status row = ''completed''))"
    using assms
    by (cases connected; cases "success res"; cases freed) (auto simp add: defs)
  moreover have "ensure_connection e = Inr False \<longrightarrow>
            deliver_coffee_async e d i =
              (Inr False, put_delivery d (failed_with dl ''Failed to connect to machine''), [])"
    using assms by (simp add: defs)
  moreover have "ensure_connection e = Inr True
            \<and> deliver_coffee e (d_group_number dl) (d_coffee_type dl) = Inr res
            \<and> \<not> success res \<longrightarrow>
            deliver_coffee_async e d i =
              (Inr False, put_delivery d (failed_with dl (message res)),
               [(d_group_number dl, d_coffee_type dl)])"
    using assms by (simp add: defs)
  moreover have "ensure_connection e = Inr True
            \<and> deliver_coffee e (d_group_number dl) (d_coffee_type dl) = Inr res
            \<and> success res
            \<and> wait_until_group_is_free e (d_group_number dl) 120 = Inr False \<longrightarrow>
            deliver_coffee_async e d i =
              (Inr False, put_delivery d (failed_with dl ''Delivery timeout''),
               [(d_group_number dl, d_coffee_type dl)])"
    using assms by (simp add: defs)
  moreover have "ensure_connection e = Inr True
            \<and> deliver_coffee e (d_group_number dl) (d_coffee_type dl) = Inr res
            \<and> success res
            \<and> wait_until_group_is_free e (d_group_number dl) 120 = Inr True \<longrightarrow>
            deliver_coffee_async e d i =
              (Inr True,
               put_delivery d (dl\<lparr>d_status := ''completed'', d_completed_at := Some (now e)\<rparr>),
               [(d_group_number dl, d_coffee_type dl)])"
    using assms by (simp add: defs)
  ultimately show ?thesis by blast
qed

theorem deliver_coffee_async_outcomes_witness:
  "deliver_coffee_async (test_env False all_idle) request_db 7 =
     (Inr False, put_delivery request_db (failed_with pending_delivery ''Failed to connect to machine''), [])
   \<and> deliver_coffee_async rejecting_env request_db 7 =
       (Inr False, put_delivery request_db (failed_with pending_delivery ''group busy''),
        [(2, ''double_long'')])
   \<and> deliver_coffee_async slow_env request_db 7 =
       (Inr False, put_delivery request_db (failed_with pending_delivery ''Delivery timeout''),
        [(2, ''double_long'')])
   \<and> deliver_coffee_async (test_env True all_idle) request_db 7 =
       (Inr True,
        put_delivery request_db
          (pending_delivery\<lparr>d_status := ''completed'', d_completed_at := Some 100\<rparr>),
        [(2, ''double_long'')])"
  using deliver_coffee_async_outcomes [of request_db 7 pending_delivery "test_env False all_idle"]
    deliver_coffee_async_outcomes [of request_db 7 pending_delivery rejecting_env
      "\<lparr>success = False, message = ''group busy''\<rparr>"]
    deliver_coffee_async_outcomes [of request_db 7 pending_delivery slow_env
      "\<lparr>success = True, message = ''started''\<rparr>"]
    deliver_coffee_async_outcomes [of request_db 7 pending_delivery "test_env True all_idle"
      "\<lparr>success = True, message = ''started''\<rparr>"]
  by (simp add: request_db_def pending_delivery_def test_env_def rejecting_env_def slow_env_def)

subsection \<open>Faults in the delivery task\<close>

text \<open>
  C7. The task never raises: whatever the driver and the repository do, it returns a
  boolean. When its body raises and the delivery can be loaded and written, the delivery
  is stored as failed with the description of the fault and the task returns false. When
  the delivery cannot be loaded, or that write fails too, the second fault is swallowed:
  the task returns false and the repository stays as the body left it.
\<close>

theorem deliver_coffee_async_never_raises:
  "(\<exists>b d1 cmds. deliver_coffee_async e d i = (Inr b, d1, cmds))
   \<and> (deliver_coffee_body e d i = (Inl x, d1, cmds) \<and> deliveries d1 i = Some dl
        \<and> delivery_write_fault e (failed_with dl (str_exn x)) = None \<longrightarrow>
      deliver_coffee_async e d i = (Inr False, put_delivery d1 (failed_with dl (str_exn x)), cmds))
   \<and> (deliver_coffee_body e d i = (Inl x, d1, cmds)
        \<and> (deliveries d1 i = None
            \<or> (\<exists>dl y. deliveries d1 i = Some dl
                  \<and> delivery_write_fault e (failed_with dl (str_exn x)) = Some y)) \<longrightarrow>
      deliver_coffee_async e d i = (Inr False, d1, cmds))"
  apply (intro conjI)
    apply (simp add: deliver_coffee_async_def objects_get_def save_def
      split: prod.splits sum.splits option.splits)
   apply (auto simp add: deliver_coffee_async_def objects_get_def save_def
      put_delivery_def failed_with_def split: prod.splits sum.splits option.splits)
  done

lemma broken_wait_body:
  "deliver_coffee_body broken_wait_env request_db 7 =
     (Inl (DriverError ''serial port closed''),
      put_delivery request_db (pending_delivery\<lparr>d_status := ''in_progress''\<rparr>),
      [(2, ''double_long'')])"
  by (simp add: deliver_coffee_body_def objects_get_def save_def put_delivery_def
      broken_wait_env_def test_env_def request_db_def pending_delivery_def)

lemma locked_body:
  "deliver_coffee_body locked_env request_db 7 =
     (Inl (DriverError ''serial port closed''),
      put_delivery request_db (pending_delivery\<lparr>d_status := ''in_progress''\<rparr>),
      [(2, ''double_long'')])"
  by (simp add: deliver_coffee_body_def objects_get_def save_def put_delivery_def locked_env_def
      broken_wait_env_def test_env_def request_db_def pending_delivery_def)

theorem deliver_coffee_async_never_raises_witness:
  "deliver_coffee_async broken_wait_env request_db 7 =
     (Inr False,
      put_delivery request_db
        (failed_with (pending_delivery\<lparr>d_status := ''in_progress''\<rparr>) ''serial port closed''),
      [(2, ''double_long'')])
   \<and> deliver_coffee_async locked_env request_db 7 =
     (Inr False,
      put_delivery request_db (pending_delivery\<lparr>d_status := ''in_progress''\<rparr>),
      [(2, ''double_long'')])"
  using deliver_coffee_async_never_raises [of broken_wait_env request_db 7
      "DriverError ''serial port closed''"
      "put_delivery request_db (pending_delivery\<lparr>d_status := ''in_progress''\<rparr>)"
      "[(2, ''double_long'')]" "pending_delivery\<lparr>d_status := ''in_progress''\<rparr>"]
    deliver_coffee_async_never_raises [of locked_env request_db 7
      "DriverError ''serial port closed''"
      "put_delivery request_db (pending_delivery\<lparr>d_status := ''in_progress''\<rparr>)"
      "[(2, ''double_long'')]"]
    broken_wait_body locked_body
  by (simp add: put_delivery_def failed_with_def locked_env_def
      broken_wait_env_def test_env_def request_db_def pending_delivery_def)

subsection \<open>The scheduled task\<close>

text \<open>
  C10. When the cache holds no entry for button_monitoring_enabled, the scheduled task
  runs the monitoring cycle on the singleton monitor: it returns the result of the cycle
  and records the time of the check, or handles the exception of the cycle; its result
  never has the status disabled.
\<close>

theorem monitoring_enabled_by_default:
  assumes "c ''button_monitoring_enabled'' = None"
  shows "monitor_button_presses e (inst, d, c) =
           (case monitor_single_cycle e (get_button_monitor inst, d) of
              Inl x \<Rightarrow> log_monitoring_error e x (Some (get_button_monitor inst), d, c)
            | Inr (result, m1, d1) \<Rightarrow>
                (Inr (Cycle result),
                 (Some m1, d1,
                  cache_set c (now e) ''last_button_monitor_check'' (Time_val (now e)) (Some 60))))
       \<and> (case fst (monitor_button_presses e (inst, d, c)) of
             Inl x \<Rightarrow> True
           | Inr r \<Rightarrow> task_status r \<noteq> ''disabled'')"
  using assms
  apply (simp add: monitor_button_presses_body_def monitor_button_presses_def cache_get_def)
  apply (auto simp add: monitor_single_cycle_def objects_create_log_def log_monitoring_error_def
      split: sum.splits prod.splits option.splits bool.splits)
  done

theorem monitoring_enabled_by_default_witness:
  "monitor_button_presses (test_env True all_idle) (None, empty_db, Map.empty) =
     (Inr (Cycle \<lparr>r_status = ''active'', r_timestamp = Some 100, r_activities = [],
                  r_active_deliveries = Some 0\<rparr>),
      Some \<lparr>previous_states = [1 \<mapsto> no_flags, 2 \<mapsto> no_flags], active_deliveries = []\<rparr>,
      empty_db,
      [''last_button_monitor_check'' \<mapsto> (Time_val 100, Some 160)])"
  using monitoring_enabled_by_default [of Map.empty "test_env True all_idle" None empty_db]
  apply (simp add: monitor_single_cycle_def get_button_monitor_def test_env_def group_range_two
       monitor_group_def try_group_def all_idle_def start_phase_def completion_phase_def
       detect_button_press_def is_delivery_active_def no_flags_def cache_set_def)
  done

end
